theory Spec2Isabelle
  imports Complex_Main "HOL-Library.Word"
begin

section \<open>The ELF symbol table (lld/ELF/SymbolTable.cpp)\<close>

subsection \<open>Data\<close>

text \<open>
  Modelled from the spec: the kind tag of a symbol record. The enum itself is declared in
  Symbols.h, which is not among the sources; SymbolTable.cpp only uses the predicates
  \<open>isPlaceholder\<close>, \<open>isUndefined\<close>, \<open>isDefined\<close>, \<open>isCommon\<close> and \<open>isLazy\<close>.
\<close>

datatype Kind = PlaceholderKind | UndefinedKind | DefinedKind | CommonKind | LazyKind

text \<open>
  A symbol record with the fields SymbolTable.cpp reads or writes. \<open>versionId\<close> is a
  \<open>uint16_t\<close>, \<open>verdefIndex\<close> a \<open>uint32_t\<close> whose value \<open>-1\<close> means that no version has
  been assigned yet.
\<close>

record Symbol =
  name :: string
  symbolKind :: Kind
  versionId :: "16 word"
  verdefIndex :: "32 word"
  visibility :: "8 word"
  isUsedInRegularObj :: bool
  exportDynamic :: bool
  inDynamicList :: bool
  canInline :: bool
  referenced :: bool
  traced :: bool
  scriptDefined :: bool
  partition_id :: "8 word"

definition isPlaceholder :: "Symbol \<Rightarrow> bool" where
  "isPlaceholder s = (symbolKind s = PlaceholderKind)"

definition isUndefined :: "Symbol \<Rightarrow> bool" where
  "isUndefined s = (symbolKind s = UndefinedKind)"

definition isDefined :: "Symbol \<Rightarrow> bool" where
  "isDefined s = (symbolKind s = DefinedKind)"

definition isCommon :: "Symbol \<Rightarrow> bool" where
  "isCommon s = (symbolKind s = CommonKind)"

definition isLazy :: "Symbol \<Rightarrow> bool" where
  "isLazy s = (symbolKind s = LazyKind)"

definition VER_NDX_LOCAL :: "16 word" where
  "VER_NDX_LOCAL = 0"

definition VER_NDX_GLOBAL :: "16 word" where
  "VER_NDX_GLOBAL = 1"

definition STV_DEFAULT :: "8 word" where
  "STV_DEFAULT = 0"

text \<open>Diagnostics: \<open>warn\<close> is never fatal, \<open>errorOrWarn\<close> is a recoverable error.\<close>

datatype Diag = Warn string | ErrorOrWarn string

text \<open>
  The table. A handle is the position of a record in \<open>symVector\<close>: the vector only ever
  grows, so the pointer \<open>symVector[i]\<close> of the source and the index \<open>i\<close> name the same
  record for the whole link. \<open>symMap\<close> maps a name to such an index. \<open>demangledSyms\<close> is
  the lazily built cache of \<open>getDemangledSyms\<close> (a StringMap, kept here as an association
  list in order of first insertion; the source's iteration order is that of its hash
  table). \<open>diags\<close> collects what \<open>warn\<close> and \<open>errorOrWarn\<close> were called with.
\<close>

record SymbolTable =
  symMap :: "string \<rightharpoonup> nat"
  symVector :: "Symbol list"
  demangledSyms :: "(string \<times> nat list) list option"
  diags :: "Diag list"

text \<open>
  The pieces of Config.h the table reads: a pattern of a version script, a version
  definition, and the configuration.
\<close>

record SymbolVersion =
  pat_name :: string
  isExternCpp :: bool
  hasWildcard :: bool

record VersionDefinition =
  ver_name :: string
  ver_id :: "16 word"
  nonLocalPatterns :: "SymbolVersion list"
  localPatterns :: "SymbolVersion list"

record Config =
  versionDefinitions :: "VersionDefinition list"
  undefinedVersion :: bool
  dynamicList :: "SymbolVersion list"

text \<open>
  What the table calls but does not implement: the Itanium demangler, the glob matcher
  (\<open>SingleStringMatcher\<close>, pattern first) and \<open>Symbol::parseSymbolVersion\<close>. They are
  parameters of the model.
\<close>

record Ext =
  demangleItanium :: "string \<Rightarrow> string"
  matcher :: "string \<Rightarrow> string \<Rightarrow> bool"
  parseSymbolVersion :: "Symbol \<Rightarrow> Symbol \<times> Diag list"

subsection \<open>insert, find, wrap\<close>

text \<open>\<open>StringRef::find(char)\<close>: the first position of the character, \<open>None\<close> for npos.\<close>

fun find_char :: "char \<Rightarrow> string \<Rightarrow> nat option" where
  "find_char c [] = None"
| "find_char c (x # xs) =
     (if x = c then Some 0 else (case find_char c xs of None \<Rightarrow> None | Some p \<Rightarrow> Some (Suc p)))"

text \<open>The first lines of \<open>insert\<close>: cut the name at a first \<open>@\<close> that another \<open>@\<close> follows.\<close>

definition stripDefaultVersion :: "string \<Rightarrow> string" where
  "stripDefaultVersion nm =
     (case find_char CHR ''@'' nm of
        None \<Rightarrow> nm
      | Some pos \<Rightarrow>
          if pos + 1 < length nm \<and> nm ! (pos + 1) = CHR ''@'' then take pos nm else nm)"

text \<open>
  \<open>insert\<close>. The new record is the uninitialised memory \<open>raw\<close> of \<open>make<SymbolUnion>()\<close>
  with the fields the source sets; the result is the handle and the table.
\<close>

definition insert_sym :: "Symbol \<Rightarrow> string \<Rightarrow> SymbolTable \<Rightarrow> nat \<times> SymbolTable" where
  "insert_sym raw nm0 st =
     (let nm = stripDefaultVersion nm0 in
      case symMap st nm of
        Some symIndex \<Rightarrow> (symIndex, st)
      | None \<Rightarrow>
          (let symIndex = length (symVector st);
               sym = raw\<lparr>name := nm, symbolKind := PlaceholderKind,
                         versionId := VER_NDX_GLOBAL, visibility := STV_DEFAULT,
                         isUsedInRegularObj := False, exportDynamic := False,
                         inDynamicList := False, canInline := True, referenced := False,
                         traced := False, scriptDefined := False, partition_id := 1\<rparr>
           in (symIndex, st\<lparr>symMap := (symMap st)(nm \<mapsto> symIndex),
                              symVector := symVector st @ [sym]\<rparr>)))"

text \<open>\<open>find\<close>: no normalisation of the name; a placeholder counts as absent.\<close>

definition find_sym :: "string \<Rightarrow> SymbolTable \<Rightarrow> nat option" where
  "find_sym nm st =
     (case symMap st nm of
        None \<Rightarrow> None
      | Some i \<Rightarrow> if isPlaceholder (symVector st ! i) then None else Some i)"

text \<open>
  \<open>DenseMap::operator[]\<close>: a key that is absent is inserted with the value 0. \<open>wrap\<close>
  takes three references into the map this way before it assigns through them.
\<close>

definition touch :: "string \<Rightarrow> (string \<rightharpoonup> nat) \<Rightarrow> (string \<rightharpoonup> nat)" where
  "touch k m = (case m k of None \<Rightarrow> m(k \<mapsto> 0) | Some _ \<Rightarrow> m)"

definition slot :: "(string \<rightharpoonup> nat) \<Rightarrow> string \<Rightarrow> nat" where
  "slot m k = (case m k of None \<Rightarrow> 0 | Some i \<Rightarrow> i)"

text \<open>
  \<open>wrap\<close>, on the handles \<open>sy\<close>, \<open>re\<close> and \<open>wr\<close> of the source's \<open>sym\<close>, \<open>real\<close> and \<open>wrap\<close>. The two assignments go through
  references, so they are map updates at the three names, in the source's order; then
  the flags of \<open>sym\<close>, then the copy of the whole record of \<open>sym\<close> over that of \<open>real\<close>.
\<close>

definition wrap :: "nat \<Rightarrow> nat \<Rightarrow> nat \<Rightarrow> SymbolTable \<Rightarrow> SymbolTable" where
  "wrap sy re wr st =
     (let v0 = symVector st;
          n1 = name (v0 ! sy); n2 = name (v0 ! re); n3 = name (v0 ! wr);
          m0 = touch n3 (touch n2 (touch n1 (symMap st)));
          m1 = m0(n2 \<mapsto> slot m0 n1);
          m2 = m1(n1 \<mapsto> slot m1 n3);
          v1 = (if exportDynamic (v0 ! re)
                then v0[sy := (v0 ! sy)\<lparr>exportDynamic := True\<rparr>] else v0);
          v2 = (if \<not> isUsedInRegularObj (v1 ! re) \<and> isUndefined (v1 ! sy)
                then v1[sy := (v1 ! sy)\<lparr>isUsedInRegularObj := False\<rparr>] else v1);
          v3 = v2[re := v2 ! sy];
          v4 = v3[re := (v3 ! re)\<lparr>isUsedInRegularObj := False\<rparr>]
      in st\<lparr>symMap := m2, symVector := v4\<rparr>)"

text \<open>A lookup that resolves a name to the record it is bound to.\<close>

definition resolve :: "SymbolTable \<Rightarrow> string \<Rightarrow> Symbol option" where
  "resolve st nm = map_option (\<lambda>i. symVector st ! i) (symMap st nm)"

definition emptyTable :: SymbolTable where
  "emptyTable = \<lparr>symMap = Map.empty, symVector = [], demangledSyms = None, diags = []\<rparr>"

text \<open>
  The invariant of a table that only \<open>insert\<close> built: every key is bound to a valid
  handle whose record carries that key as its name, every record is bound under its name,
  and every key is a normalised name.
\<close>

definition table_inv :: "SymbolTable \<Rightarrow> bool" where
  "table_inv st =
     ((\<forall>k i. symMap st k = Some i \<longrightarrow>
          i < length (symVector st) \<and> name (symVector st ! i) = k \<and> stripDefaultVersion k = k) \<and>
      (\<forall>i < length (symVector st). symMap st (name (symVector st ! i)) = Some i))"

subsection \<open>Lookup by version pattern\<close>

definition canBeVersioned :: "Symbol \<Rightarrow> bool" where
  "canBeVersioned s = (isDefined s \<or> isCommon s \<or> isLazy s)"

text \<open>
  The key under which \<open>getDemangledSyms\<close> files a symbol: the demangled prefix, with a
  suffix \<open>@version\<close> attached again and a suffix \<open>@@version\<close> (or a bare \<open>@\<close>) dropped.
\<close>

definition demangledName :: "Ext \<Rightarrow> string \<Rightarrow> string" where
  "demangledName E nm =
     (case find_char CHR ''@'' nm of
        None \<Rightarrow> demangleItanium E nm
      | Some pos \<Rightarrow>
          if pos + 1 = length nm \<or> nm ! (pos + 1) = CHR ''@''
          then demangleItanium E (take pos nm)
          else demangleItanium E (take pos nm) @ drop pos nm)"

text \<open>\<open>(*demangledSyms)[demangled].push_back(sym)\<close>\<close>

fun push_back_at :: "string \<Rightarrow> nat \<Rightarrow> (string \<times> nat list) list \<Rightarrow> (string \<times> nat list) list" where
  "push_back_at k i [] = [(k, [i])]"
| "push_back_at k i ((k', js) # m) =
     (if k' = k then (k', js @ [i]) # m else (k', js) # push_back_at k i m)"

definition buildDemangled :: "Ext \<Rightarrow> Symbol list \<Rightarrow> (string \<times> nat list) list" where
  "buildDemangled E v =
     fold (\<lambda>i m. if canBeVersioned (v ! i)
                  then push_back_at (demangledName E (name (v ! i))) i m else m)
          [0..<length v] []"

definition getDemangledSyms :: "Ext \<Rightarrow> SymbolTable \<Rightarrow> (string \<times> nat list) list \<times> SymbolTable" where
  "getDemangledSyms E st =
     (case demangledSyms st of
        Some m \<Rightarrow> (m, st)
      | None \<Rightarrow> (let m = buildDemangled E (symVector st) in (m, st\<lparr>demangledSyms := Some m\<rparr>)))"

text \<open>\<open>StringMap::lookup\<close>: the value of the key, or an empty vector.\<close>

definition lookup_syms :: "(string \<times> nat list) list \<Rightarrow> string \<Rightarrow> nat list" where
  "lookup_syms m k = (case map_of m k of None \<Rightarrow> [] | Some js \<Rightarrow> js)"

definition findByVersion :: "Ext \<Rightarrow> SymbolVersion \<Rightarrow> SymbolTable \<Rightarrow> nat list \<times> SymbolTable" where
  "findByVersion E ver st =
     (if isExternCpp ver
      then (let (m, st') = getDemangledSyms E st in (lookup_syms m (pat_name ver), st'))
      else (case find_sym (pat_name ver) st of
              Some i \<Rightarrow> if canBeVersioned (symVector st ! i) then ([i], st) else ([], st)
            | None \<Rightarrow> ([], st)))"

text \<open>
  The lambda \<open>check\<close> of \<open>findAllByVersion\<close>. Where the name has no \<open>@\<close>, \<open>pos\<close> is npos and
  \<open>pos + 1\<close> wraps around to 0, so the second test reads the first character.
\<close>

definition check :: "bool \<Rightarrow> string \<Rightarrow> bool" where
  "check includeNonDefault nm =
     (case find_char CHR ''@'' nm of
        None \<Rightarrow>
          if \<not> includeNonDefault then True
          else \<not> (0 < length nm \<and> nm ! 0 = CHR ''@'')
      | Some pos \<Rightarrow>
          if \<not> includeNonDefault then False
          else \<not> (pos + 1 < length nm \<and> nm ! (pos + 1) = CHR ''@''))"

definition findAllByVersion ::
  "Ext \<Rightarrow> SymbolVersion \<Rightarrow> bool \<Rightarrow> SymbolTable \<Rightarrow> nat list \<times> SymbolTable" where
  "findAllByVersion E ver includeNonDefault st =
     (if isExternCpp ver
      then (let (m, st') = getDemangledSyms E st in
            (concat (map (\<lambda>(k, js). if matcher E (pat_name ver) k
                                     then filter (\<lambda>i. check includeNonDefault (name (symVector st' ! i))) js
                                     else []) m), st'))
      else (filter (\<lambda>i. canBeVersioned (symVector st ! i) \<and>
                         check includeNonDefault (name (symVector st ! i)) \<and>
                         matcher E (pat_name ver) (name (symVector st ! i)))
                   [0..<length (symVector st)], st))"

definition handleDynamicList :: "Ext \<Rightarrow> Config \<Rightarrow> SymbolTable \<Rightarrow> SymbolTable" where
  "handleDynamicList E cfg st =
     fold (\<lambda>ver s.
             (let (syms, s1) = (if hasWildcard ver then findAllByVersion E ver True s
                                else findByVersion E ver s)
              in fold (\<lambda>i t. t\<lparr>symVector := (symVector t)[i := (symVector t ! i)\<lparr>inDynamicList := True\<rparr>]\<rparr>)
                      syms s1))
          (dynamicList cfg) st"

subsection \<open>Version assignment\<close>

definition getName :: "Config \<Rightarrow> 16 word \<Rightarrow> string" where
  "getName cfg ver =
     (if ver = VER_NDX_LOCAL then ''VER_NDX_LOCAL''
      else if ver = VER_NDX_GLOBAL then ''VER_NDX_GLOBAL''
      else ''version '' @ [CHR 0x27] @ ver_name (versionDefinitions cfg ! unat ver) @ [CHR 0x27])"

text \<open>The write both assignment functions make, behind the test \<open>verdefIndex == -1\<close>.\<close>

definition setVersion :: "16 word \<Rightarrow> nat \<Rightarrow> SymbolTable \<Rightarrow> SymbolTable" where
  "setVersion vid i st =
     (if verdefIndex (symVector st ! i) = - 1
      then st\<lparr>symVector := (symVector st)[i := (symVector st ! i)\<lparr>verdefIndex := 0, versionId := vid\<rparr>]\<rparr>
      else st)"

text \<open>The text of the warning of \<open>assignExactVersion\<close>.\<close>

definition reassignMessage :: "Config \<Rightarrow> SymbolVersion \<Rightarrow> 16 word \<Rightarrow> 16 word \<Rightarrow> string" where
  "reassignMessage cfg ver cur vid =
     ''attempt to reassign symbol '' @ [CHR 0x27] @ pat_name ver @ [CHR 0x27] @ '' of '' @
     getName cfg cur @ '' to '' @ getName cfg vid"

text \<open>The body of the loop of \<open>assignExactVersion\<close>, for the symbol with handle \<open>i\<close>.\<close>

definition assignExactSym ::
  "Config \<Rightarrow> SymbolVersion \<Rightarrow> 16 word \<Rightarrow> bool \<Rightarrow> nat \<Rightarrow> SymbolTable \<Rightarrow> SymbolTable" where
  "assignExactSym cfg ver vid includeNonDefault i st =
     (if \<not> includeNonDefault \<and> vid \<noteq> VER_NDX_LOCAL \<and> CHR ''@'' \<in> set (name (symVector st ! i))
      then st
      else (let st1 = setVersion vid i st in
            if versionId (symVector st1 ! i) = vid then st1
            else st1\<lparr>diags := diags st1 @
                   [Warn (reassignMessage cfg ver (versionId (symVector st1 ! i)) vid)]\<rparr>))"

definition assignExactVersion ::
  "Ext \<Rightarrow> Config \<Rightarrow> SymbolVersion \<Rightarrow> 16 word \<Rightarrow> string \<Rightarrow> bool \<Rightarrow> SymbolTable \<Rightarrow> bool \<times> SymbolTable" where
  "assignExactVersion E cfg ver vid versionName includeNonDefault st =
     (let (syms, st1) = findByVersion E ver st
      in (syms \<noteq> [], fold (assignExactSym cfg ver vid includeNonDefault) syms st1))"

definition assignWildcardVersion ::
  "Ext \<Rightarrow> SymbolVersion \<Rightarrow> 16 word \<Rightarrow> bool \<Rightarrow> SymbolTable \<Rightarrow> SymbolTable" where
  "assignWildcardVersion E ver vid includeNonDefault st =
     (let (syms, st1) = findAllByVersion E ver includeNonDefault st
      in fold (setVersion vid) syms st1)"

text \<open>The pattern \<open>name@version\<close> that \<open>scanVersionScript\<close> tries after the bare pattern.\<close>

definition withVersion :: "SymbolVersion \<Rightarrow> string \<Rightarrow> bool \<Rightarrow> SymbolVersion" where
  "withVersion pat ver wild =
     \<lparr>pat_name = pat_name pat @ ''@'' @ ver, isExternCpp = isExternCpp pat, hasWildcard = wild\<rparr>"

text \<open>The error of an exact rule that found no symbol.\<close>

definition missMessage :: "string \<Rightarrow> SymbolVersion \<Rightarrow> Diag" where
  "missMessage ver pat =
     ErrorOrWarn (''version script assignment of '' @ [CHR 0x27] @ ver @ [CHR 0x27] @
                  '' to symbol '' @ [CHR 0x27] @ pat_name pat @ [CHR 0x27] @
                  '' failed: symbol not defined'')"

text \<open>The lambda \<open>assignExact\<close> of \<open>scanVersionScript\<close>, inside the loop over the definition \<open>v\<close>.\<close>

definition assignExact ::
  "Ext \<Rightarrow> Config \<Rightarrow> VersionDefinition \<Rightarrow> SymbolVersion \<Rightarrow> 16 word \<Rightarrow> string \<Rightarrow> SymbolTable \<Rightarrow> SymbolTable" where
  "assignExact E cfg v pat vid ver st =
     (let (found1, st1) = assignExactVersion E cfg pat vid ver False st;
          (found2, st2) = assignExactVersion E cfg (withVersion pat (ver_name v) False) vid ver True st1
      in if \<not> (found1 \<or> found2) \<and> \<not> undefinedVersion cfg
         then st2\<lparr>diags := diags st2 @ [missMessage ver pat]\<rparr>
         else st2)"

definition assignWildcard :: "Ext \<Rightarrow> SymbolVersion \<Rightarrow> 16 word \<Rightarrow> string \<Rightarrow> SymbolTable \<Rightarrow> SymbolTable" where
  "assignWildcard E pat vid ver st =
     assignWildcardVersion E (withVersion pat ver True) vid True
       (assignWildcardVersion E pat vid False st)"

text \<open>
  The three loops of \<open>scanVersionScript\<close> over the version definitions, each given by what
  it does for one definition.
\<close>

definition exactBlock :: "Ext \<Rightarrow> Config \<Rightarrow> VersionDefinition \<Rightarrow> SymbolTable \<Rightarrow> SymbolTable" where
  "exactBlock E cfg v st =
     fold (\<lambda>pat s. if \<not> hasWildcard pat then assignExact E cfg v pat VER_NDX_LOCAL ''local'' s else s)
          (localPatterns v)
          (fold (\<lambda>pat s. if \<not> hasWildcard pat then assignExact E cfg v pat (ver_id v) (ver_name v) s else s)
                (nonLocalPatterns v) st)"

definition wildcardBlock :: "Ext \<Rightarrow> VersionDefinition \<Rightarrow> SymbolTable \<Rightarrow> SymbolTable" where
  "wildcardBlock E v st =
     fold (\<lambda>pat s. if hasWildcard pat \<and> pat_name pat \<noteq> ''*''
                   then assignWildcard E pat VER_NDX_LOCAL (ver_name v) s else s)
          (localPatterns v)
          (fold (\<lambda>pat s. if hasWildcard pat \<and> pat_name pat \<noteq> ''*''
                         then assignWildcard E pat (ver_id v) (ver_name v) s else s)
                (nonLocalPatterns v) st)"

definition starBlock :: "Ext \<Rightarrow> VersionDefinition \<Rightarrow> SymbolTable \<Rightarrow> SymbolTable" where
  "starBlock E v st =
     fold (\<lambda>pat s. if hasWildcard pat \<and> pat_name pat = ''*''
                   then assignWildcard E pat VER_NDX_LOCAL (ver_name v) s else s)
          (localPatterns v)
          (fold (\<lambda>pat s. if hasWildcard pat \<and> pat_name pat = ''*''
                         then assignWildcard E pat (ver_id v) (ver_name v) s else s)
                (nonLocalPatterns v) st)"

definition scanExact :: "Ext \<Rightarrow> Config \<Rightarrow> SymbolTable \<Rightarrow> SymbolTable" where
  "scanExact E cfg st = fold (exactBlock E cfg) (versionDefinitions cfg) st"

definition scanWildcard :: "Ext \<Rightarrow> Config \<Rightarrow> SymbolTable \<Rightarrow> SymbolTable" where
  "scanWildcard E cfg st = fold (wildcardBlock E) (rev (versionDefinitions cfg)) st"

definition scanStar :: "Ext \<Rightarrow> Config \<Rightarrow> SymbolTable \<Rightarrow> SymbolTable" where
  "scanStar E cfg st = fold (starBlock E) (versionDefinitions cfg) st"

text \<open>The loop that lets every symbol parse the version in its own name.\<close>

definition parseAll :: "Ext \<Rightarrow> SymbolTable \<Rightarrow> SymbolTable" where
  "parseAll E st =
     fold (\<lambda>i s. (let (sym', ds) = parseSymbolVersion E (symVector s ! i)
                  in s\<lparr>symVector := (symVector s)[i := sym'], diags := diags s @ ds\<rparr>))
          [0..<length (symVector st)] st"

definition scanVersionScript :: "Ext \<Rightarrow> Config \<Rightarrow> SymbolTable \<Rightarrow> SymbolTable" where
  "scanVersionScript E cfg st =
     handleDynamicList E cfg (parseAll E (scanStar E cfg (scanWildcard E cfg (scanExact E cfg st))))"

text \<open>
  A glob matcher with \<open>*\<close> and \<open>?\<close>, to put in the place of \<open>SingleStringMatcher\<close> where a
  concrete table is evaluated.
\<close>

fun glob :: "string \<Rightarrow> string \<Rightarrow> bool" where
  "glob [] [] = True"
| "glob [] (c # s) = False"
| "glob (p # ps) [] = (p = CHR ''*'' \<and> glob ps [])"
| "glob (p # ps) (c # s) =
     (if p = CHR ''*'' then glob ps (c # s) \<or> glob (p # ps) s
      else (p = CHR ''?'' \<or> p = c) \<and> glob ps s)"

section \<open>Call-chain clustering (lld/ELF/CallGraphSort.cpp)\<close>

subsection \<open>Data\<close>

text \<open>
  \<open>Edge\<close> and \<open>Cluster\<close>. Sizes and weights are \<open>uint64_t\<close>. The source holds cluster
  indices in \<open>int\<close>; they are positions in \<open>clusters\<close> and are kept as \<open>nat\<close> here, except
  \<open>bestPred.from\<close>, whose value \<open>-1\<close> means that no predecessor is recorded.
\<close>

record Edge =
  efrom :: int
  eweight :: "64 word"

record Cluster =
  "next" :: nat
  prev :: nat
  csize :: "64 word"
  weight :: "64 word"
  initialWeight :: "64 word"
  bestPred :: Edge

definition mkCluster :: "nat \<Rightarrow> 64 word \<Rightarrow> Cluster" where
  "mkCluster sec s =
     \<lparr>next = sec, prev = sec, csize = s, weight = 0, initialWeight = 0,
      bestPred = \<lparr>efrom = - 1, eweight = 0\<rparr>\<rparr>"

record 'sec CallGraphSort =
  clusters :: "Cluster list"
  sections :: "'sec list"

definition MAX_DENSITY_DEGRADATION :: int where
  "MAX_DENSITY_DEGRADATION = 8"

definition MAX_CLUSTER_SIZE :: "64 word" where
  "MAX_CLUSTER_SIZE = 1024 * 1024"

text \<open>
  What the sorter reads of an input section: the section that replaces it (\<open>repl\<close>), its
  size and its output section.
\<close>

record ('sec, 'os) SecInfo =
  repl :: "'sec \<Rightarrow> 'sec"
  getSize :: "'sec \<Rightarrow> 64 word"
  getOutputSection :: "'sec \<Rightarrow> 'os"

text \<open>
  The arithmetic of \<open>double\<close> the sorter uses, as a parameter: the conversions from
  \<open>uint64_t\<close> and from \<open>int\<close>, division, and the comparison \<open><\<close>.
\<close>

record 'd Fp =
  ofU64 :: "64 word \<Rightarrow> 'd"
  ofInt :: "int \<Rightarrow> 'd"
  fdiv :: "'d \<Rightarrow> 'd \<Rightarrow> 'd"
  flt :: "'d \<Rightarrow> 'd \<Rightarrow> bool"

definition getDensity :: "'d Fp \<Rightarrow> Cluster \<Rightarrow> 'd" where
  "getDensity F c =
     (if csize c = 0 then ofInt F 0 else fdiv F (ofU64 F (weight c)) (ofU64 F (csize c)))"

subsection \<open>The constructor: the graph\<close>

definition getOrCreateNode ::
  "('sec, 'os) SecInfo \<Rightarrow> 'sec \<Rightarrow> ('sec \<rightharpoonup> nat) \<times> 'sec CallGraphSort \<Rightarrow>
     nat \<times> ('sec \<rightharpoonup> nat) \<times> 'sec CallGraphSort" where
  "getOrCreateNode I isec ms =
     (case ms of (secToCluster, g) \<Rightarrow>
        (case secToCluster isec of
           Some i \<Rightarrow> (i, secToCluster, g)
         | None \<Rightarrow>
             (let n = length (clusters g) in
              (n, secToCluster(isec \<mapsto> n),
               g\<lparr>sections := sections g @ [isec],
                  clusters := clusters g @ [mkCluster n (getSize I isec)]\<rparr>))))"

text \<open>The body of the loop over the profile, for one entry \<open>((from, to), weight)\<close>.\<close>

definition addEdge ::
  "('sec, 'os) SecInfo \<Rightarrow> ('sec \<times> 'sec) \<times> 64 word \<Rightarrow> ('sec \<rightharpoonup> nat) \<times> 'sec CallGraphSort \<Rightarrow>
     ('sec \<rightharpoonup> nat) \<times> 'sec CallGraphSort" where
  "addEdge I c ms =
     (let fromSB = repl I (fst (fst c)); toSB = repl I (snd (fst c)); w = snd c in
      if getOutputSection I fromSB \<noteq> getOutputSection I toSB then ms
      else
        (case getOrCreateNode I fromSB ms of (frm, m1, g1) \<Rightarrow>
         case getOrCreateNode I toSB (m1, g1) of (to, m2, g2) \<Rightarrow>
           (let cs = clusters g2;
                cs1 = cs[to := (cs ! to)\<lparr>weight := weight (cs ! to) + w\<rparr>]
            in if frm = to then (m2, g2\<lparr>clusters := cs1\<rparr>)
               else
                 (let toC = cs1 ! to in
                  if efrom (bestPred toC) = - 1 \<or> eweight (bestPred toC) < w
                  then (m2, g2\<lparr>clusters := cs1[to := toC\<lparr>bestPred := \<lparr>efrom = int frm, eweight = w\<rparr>\<rparr>]\<rparr>)
                  else (m2, g2\<lparr>clusters := cs1\<rparr>)))))"

definition buildGraph ::
  "('sec, 'os) SecInfo \<Rightarrow> (('sec \<times> 'sec) \<times> 64 word) list \<Rightarrow> ('sec \<rightharpoonup> nat) \<times> 'sec CallGraphSort" where
  "buildGraph I profile = fold (addEdge I) profile (Map.empty, \<lparr>clusters = [], sections = []\<rparr>)"

definition CallGraphSort_ctor ::
  "('sec, 'os) SecInfo \<Rightarrow> (('sec \<times> 'sec) \<times> 64 word) list \<Rightarrow> 'sec CallGraphSort" where
  "CallGraphSort_ctor I profile =
     (let g = snd (buildGraph I profile)
      in g\<lparr>clusters := map (\<lambda>c. c\<lparr>initialWeight := weight c\<rparr>) (clusters g)\<rparr>)"

subsection \<open>run: merging and the final order\<close>

definition isNewDensityBad :: "'d Fp \<Rightarrow> Cluster \<Rightarrow> Cluster \<Rightarrow> bool" where
  "isNewDensityBad F a b =
     (let newDensity = fdiv F (ofU64 F (weight a + weight b)) (ofU64 F (csize a + csize b))
      in flt F newDensity (fdiv F (getDensity F a) (ofInt F MAX_DENSITY_DEGRADATION)))"

text \<open>
  \<open>getLeader\<close> with path halving; it returns the vector as it leaves it and the leader.
  \<open>None\<close> stands for a loop that does not end or reads outside the vector.
\<close>

partial_function (option) getLeader :: "nat list \<Rightarrow> nat \<Rightarrow> (nat list \<times> nat) option" where
  "getLeader leaders v =
     (if length leaders \<le> v then None
      else if leaders ! v \<noteq> v
      then (if length leaders \<le> leaders ! v then None
            else (let leaders1 = leaders[v := leaders ! (leaders ! v)]
                  in getLeader leaders1 (leaders1 ! v)))
      else Some (leaders, v))"

definition mergeClusters :: "Cluster list \<Rightarrow> nat \<Rightarrow> nat \<Rightarrow> Cluster list" where
  "mergeClusters cs intoIdx fromIdx =
     (let tail1 = prev (cs ! intoIdx); tail2 = prev (cs ! fromIdx);
          cs1 = cs[intoIdx := (cs ! intoIdx)\<lparr>prev := tail2\<rparr>];
          cs2 = cs1[tail2 := (cs1 ! tail2)\<lparr>next := intoIdx\<rparr>];
          cs3 = cs2[fromIdx := (cs2 ! fromIdx)\<lparr>prev := tail1\<rparr>];
          cs4 = cs3[tail1 := (cs3 ! tail1)\<lparr>next := fromIdx\<rparr>];
          cs5 = cs4[intoIdx := (cs4 ! intoIdx)\<lparr>csize := csize (cs4 ! intoIdx) + csize (cs4 ! fromIdx)\<rparr>];
          cs6 = cs5[intoIdx := (cs5 ! intoIdx)\<lparr>weight := weight (cs5 ! intoIdx) + weight (cs5 ! fromIdx)\<rparr>];
          cs7 = cs6[fromIdx := (cs6 ! fromIdx)\<lparr>csize := 0\<rparr>]
      in cs7[fromIdx := (cs7 ! fromIdx)\<lparr>weight := 0\<rparr>])"

text \<open>
  \<open>llvm::stable_sort\<close> with a comparator \<open>lt\<close>: insertion from the right, where an element
  passes only those that are strictly before it.
\<close>

fun insert_by :: "('a \<Rightarrow> 'a \<Rightarrow> bool) \<Rightarrow> 'a \<Rightarrow> 'a list \<Rightarrow> 'a list" where
  "insert_by lt x [] = [x]"
| "insert_by lt x (y # ys) = (if lt y x then y # insert_by lt x ys else x # y # ys)"

definition stable_sort :: "('a \<Rightarrow> 'a \<Rightarrow> bool) \<Rightarrow> 'a list \<Rightarrow> 'a list" where
  "stable_sort lt xs = foldr (insert_by lt) xs []"

definition byDensity :: "'d Fp \<Rightarrow> Cluster list \<Rightarrow> nat \<Rightarrow> nat \<Rightarrow> bool" where
  "byDensity F cs a b = flt F (getDensity F (cs ! b)) (getDensity F (cs ! a))"

text \<open>The body of the merge loop for the cluster \<open>l\<close>; each \<open>continue\<close> is a branch.\<close>

definition mergeStep ::
  "'d Fp \<Rightarrow> nat \<Rightarrow> Cluster list \<times> nat list \<Rightarrow> (Cluster list \<times> nat list) option" where
  "mergeStep F l st =
     (case st of (cs, leaders) \<Rightarrow>
        (let c = cs ! l in
         if efrom (bestPred c) = - 1 \<or> eweight (bestPred c) * 10 \<le> initialWeight c
         then Some (cs, leaders)
         else
           (case getLeader leaders (nat (efrom (bestPred c))) of
              None \<Rightarrow> None
            | Some (leaders1, predL) \<Rightarrow>
                if l = predL then Some (cs, leaders1)
                else if csize c + csize (cs ! predL) > MAX_CLUSTER_SIZE then Some (cs, leaders1)
                else if isNewDensityBad F (cs ! predL) c then Some (cs, leaders1)
                else Some (mergeClusters cs predL l, leaders1[l := predL]))))"

fun mergeLoop ::
  "'d Fp \<Rightarrow> nat list \<Rightarrow> Cluster list \<times> nat list \<Rightarrow> (Cluster list \<times> nat list) option" where
  "mergeLoop F [] st = Some st"
| "mergeLoop F (l # ls) st =
     (case mergeStep F l st of None \<Rightarrow> None | Some st' \<Rightarrow> mergeLoop F ls st')"

text \<open>
  The inner loop of the final numbering: from \<open>i\<close>, number the section, step to \<open>next\<close>,
  stop on coming back to \<open>leader\<close>. \<open>None\<close> as for \<open>getLeader\<close>.
\<close>

partial_function (option) walk ::
  "Cluster list \<Rightarrow> 'sec list \<Rightarrow> nat \<Rightarrow> nat \<Rightarrow> ('sec \<rightharpoonup> int) \<times> int \<Rightarrow> (('sec \<rightharpoonup> int) \<times> int) option" where
  "walk cs secs leader i oc =
     (if length cs \<le> i \<or> length secs \<le> i then None
      else (let orderMap = (fst oc)(secs ! i \<mapsto> snd oc);
                curOrder = snd oc + 1;
                i' = next (cs ! i)
            in if i' = leader then Some (orderMap, curOrder)
               else walk cs secs leader i' (orderMap, curOrder)))"

fun numberAll ::
  "Cluster list \<Rightarrow> 'sec list \<Rightarrow> nat list \<Rightarrow> ('sec \<rightharpoonup> int) \<times> int \<Rightarrow> (('sec \<rightharpoonup> int) \<times> int) option" where
  "numberAll cs secs [] oc = Some oc"
| "numberAll cs secs (leader # ls) oc =
     (case walk cs secs leader leader oc of None \<Rightarrow> None | Some oc' \<Rightarrow> numberAll cs secs ls oc')"

text \<open>
  \<open>run\<close>, up to the order map it returns (the listing written to \<open>printSymbolOrder\<close> does
  not change the map).
\<close>

definition run :: "'d Fp \<Rightarrow> 'sec CallGraphSort \<Rightarrow> ('sec \<rightharpoonup> int) option" where
  "run F g =
     (let cs0 = clusters g;
          n = length cs0;
          sorted = stable_sort (byDensity F cs0) [0..<n]
      in case mergeLoop F sorted (cs0, [0..<n]) of
           None \<Rightarrow> None
         | Some (cs, leaders) \<Rightarrow>
             (let sorted2 = stable_sort (byDensity F cs) (filter (\<lambda>i. csize (cs ! i) > 0) [0..<n])
              in map_option fst (numberAll cs (sections g) sorted2 (Map.empty, 1))))"

definition computeCallGraphProfileOrder ::
  "'d Fp \<Rightarrow> ('sec, 'os) SecInfo \<Rightarrow> (('sec \<times> 'sec) \<times> 64 word) list \<Rightarrow> ('sec \<rightharpoonup> int) option" where
  "computeCallGraphProfileOrder F I profile = run F (CallGraphSort_ctor I profile)"

text \<open>
  An instance of the arithmetic for evaluating concrete profiles: exact rationals, which
  order the densities of small weights and sizes as \<open>double\<close> does.
\<close>

definition ratFp :: "rat Fp" where
  "ratFp = \<lparr>ofU64 = (\<lambda>w. of_nat (unat w)), ofInt = of_int, fdiv = (\<lambda>a b. a / b), flt = (\<lambda>a b. a < b)\<rparr>"

section \<open>Sample inputs\<close>

text \<open>Concrete records and tables on which the theorems below are evaluated.\<close>

definition rawSymbol :: Symbol where
  "rawSymbol =
     \<lparr>name = [], symbolKind = PlaceholderKind, versionId = 0, verdefIndex = - 1, visibility = 0,
      isUsedInRegularObj = False, exportDynamic = False, inDynamicList = False, canInline = False,
      referenced = False, traced = False, scriptDefined = False, partition_id = 0\<rparr>"

definition sampleSym :: "string \<Rightarrow> Kind \<Rightarrow> Symbol" where
  "sampleSym nm k = rawSymbol\<lparr>name := nm, symbolKind := k, versionId := VER_NDX_GLOBAL\<rparr>"

definition tableOf :: "Symbol list \<Rightarrow> SymbolTable" where
  "tableOf v =
     \<lparr>symMap = map_of (zip (map (\<lambda>s. stripDefaultVersion (name s)) v) [0..<length v]),
      symVector = v, demangledSyms = None, diags = []\<rparr>"

text \<open>
  \<open>foo\<close>, \<open>__real_foo\<close> and \<open>__wrap_foo\<close> as \<open>--wrap=foo\<close> meets them: \<open>__real_foo\<close> is
  undefined and exported.
\<close>

definition wrapTable :: SymbolTable where
  "wrapTable =
     tableOf [(sampleSym ''foo'' DefinedKind)\<lparr>isUsedInRegularObj := True\<rparr>,
              (sampleSym ''__real_foo'' UndefinedKind)\<lparr>exportDynamic := True\<rparr>,
              sampleSym ''__wrap_foo'' DefinedKind]"

definition globExt :: Ext where
  "globExt = \<lparr>demangleItanium = (\<lambda>s. s), matcher = glob, parseSymbolVersion = (\<lambda>s. (s, []))\<rparr>"

definition exactPat :: "string \<Rightarrow> SymbolVersion" where
  "exactPat nm = \<lparr>pat_name = nm, isExternCpp = False, hasWildcard = False\<rparr>"

definition wildPat :: "string \<Rightarrow> SymbolVersion" where
  "wildPat nm = \<lparr>pat_name = nm, isExternCpp = False, hasWildcard = True\<rparr>"

definition verDef :: "string \<Rightarrow> 16 word \<Rightarrow> SymbolVersion list \<Rightarrow> VersionDefinition" where
  "verDef nm i pats = \<lparr>ver_name = nm, ver_id = i, nonLocalPatterns = pats, localPatterns = []\<rparr>"

text \<open>A version script: the reserved definitions \<open>local\<close> and \<open>global\<close>, then the given ones.\<close>

definition script :: "VersionDefinition list \<Rightarrow> Config" where
  "script vs =
     \<lparr>versionDefinitions = verDef ''local'' 0 [] # verDef ''global'' 1 [] # vs,
      undefinedVersion = False, dynamicList = []\<rparr>"

definition fooTable :: SymbolTable where
  "fooTable = tableOf [sampleSym ''foo'' DefinedKind]"

definition abcTable :: SymbolTable where
  "abcTable = tableOf [sampleSym ''abc'' DefinedKind]"

definition versionedTable :: SymbolTable where
  "versionedTable =
     tableOf [sampleSym ''foo'' DefinedKind, sampleSym ''bar@v1'' DefinedKind,
              sampleSym ''baz@@v2'' DefinedKind]"

definition cfgExactStar :: Config where
  "cfgExactStar = script [verDef ''V1'' 2 [exactPat ''foo''], verDef ''V2'' 3 [wildPat ''*'']]"

definition cfgStarExact :: Config where
  "cfgStarExact = script [verDef ''V1'' 2 [wildPat ''*''], verDef ''V2'' 3 [exactPat ''foo'']]"

definition cfgTwoWild :: Config where
  "cfgTwoWild = script [verDef ''V1'' 2 [wildPat ''a*''], verDef ''V2'' 3 [wildPat ''a*'']]"

definition cfgMiss :: Config where
  "cfgMiss = script [verDef ''V1'' 2 [exactPat ''bar'', wildPat ''zzz*'']]"

definition cfgWildMiss :: Config where
  "cfgWildMiss = script [verDef ''V1'' 2 [wildPat ''zzz*'']]"

text \<open>
  Sections named by numbers, all of size 10 and in one output section, and the chain
  A \<open>\<rightarrow>\<close> B \<open>\<rightarrow>\<close> C \<open>\<rightarrow>\<close> D of the specification with the weights 300, 200 and 100.
\<close>

definition chainInfo :: "(nat, nat) SecInfo" where
  "chainInfo = \<lparr>repl = (\<lambda>s. s), getSize = (\<lambda>s. 10), getOutputSection = (\<lambda>s. 0)\<rparr>"

definition chainProfile :: "((nat \<times> nat) \<times> 64 word) list" where
  "chainProfile = [((0, 1), 300), ((1, 2), 200), ((2, 3), 100)]"

text \<open>The destination 0 with two callers, of weights 1000 and 50.\<close>

definition fanProfile :: "((nat \<times> nat) \<times> 64 word) list" where
  "fanProfile = [((1, 0), 1000), ((2, 0), 50)]"

text \<open>A section of size 0 that calls itself, beside an edge between two sections of size 10.\<close>

definition emptySecInfo :: "(nat, nat) SecInfo" where
  "emptySecInfo = \<lparr>repl = (\<lambda>s. s), getSize = (\<lambda>s. if s = 0 then 0 else 10), getOutputSection = (\<lambda>s. 0)\<rparr>"

definition emptySecProfile :: "((nat \<times> nat) \<times> 64 word) list" where
  "emptySecProfile = [((0, 0), 5), ((1, 2), 7)]"



text \<open>Two exact rules of different versions for one symbol.\<close>

definition cfgTwoExact :: Config where
  "cfgTwoExact = script [verDef ''V1'' 2 [exactPat ''foo''], verDef ''V2'' 3 [exactPat ''foo'']]"

section \<open>Notions used to state the properties\<close>

text \<open>
  \<open>gate a b\<close>: the record \<open>b\<close> is the record \<open>a\<close>, or \<open>a\<close> had no version assigned and \<open>b\<close>
  is \<open>a\<close> after the one write that assigns a version.
\<close>

definition gate :: "Symbol \<Rightarrow> Symbol \<Rightarrow> bool" where
  "gate a b = (b = a \<or> (verdefIndex a = - 1 \<and> (\<exists>x. b = a\<lparr>verdefIndex := 0, versionId := x\<rparr>)))"

text \<open>
  \<open>assigns_only E st st'\<close>: from \<open>st\<close> to \<open>st'\<close> the bindings are the same, every record
  changed at most by one gated write, the cache of demangled names is the same or was built
  from the records, and diagnostics were only added.
\<close>

definition assigns_only :: "Ext \<Rightarrow> SymbolTable \<Rightarrow> SymbolTable \<Rightarrow> bool" where
  "assigns_only E st st' =
     (symMap st' = symMap st \<and> length (symVector st') = length (symVector st) \<and>
      (\<forall>i. gate (symVector st ! i) (symVector st' ! i)) \<and>
      (demangledSyms st' = demangledSyms st \<or>
       (demangledSyms st = None \<and> demangledSyms st' = Some (buildDemangled E (symVector st)))) \<and>
      (\<exists>ds. diags st' = diags st @ ds))"

text \<open>Whether an exact rule finds no symbol, under its name and under \<open>name@version\<close>.\<close>

definition findsNone :: "Ext \<Rightarrow> SymbolTable \<Rightarrow> VersionDefinition \<Rightarrow> SymbolVersion \<Rightarrow> bool" where
  "findsNone E st v pat =
     (fst (findByVersion E pat st) = [] \<and>
      fst (findByVersion E (withVersion pat (ver_name v) False) st) = [])"

definition isError :: "Diag \<Rightarrow> bool" where
  "isError d = (case d of ErrorOrWarn _ \<Rightarrow> True | Warn _ \<Rightarrow> False)"

text \<open>The errors expected of the exact rules of one version definition, in order.\<close>

definition blockMisses :: "Ext \<Rightarrow> Config \<Rightarrow> SymbolTable \<Rightarrow> VersionDefinition \<Rightarrow> Diag list" where
  "blockMisses E cfg st v =
     (if undefinedVersion cfg then []
      else map (missMessage (ver_name v))
             (filter (\<lambda>pat. \<not> hasWildcard pat \<and> findsNone E st v pat) (nonLocalPatterns v)) @
           map (missMessage ''local'')
             (filter (\<lambda>pat. \<not> hasWildcard pat \<and> findsNone E st v pat) (localPatterns v)))"













text \<open>
  For the graph: the weight and the best predecessor recorded for a section (those of a
  fresh cluster where the section has none yet), the index a section has or will get, the
  edges that are not dropped, and the invariant that ties \<open>secToCluster\<close> to \<open>sections\<close>.
\<close>

definition weightOf :: "('sec \<rightharpoonup> nat) \<times> 'sec CallGraphSort \<Rightarrow> 'sec \<Rightarrow> 64 word" where
  "weightOf ms s = (case fst ms s of None \<Rightarrow> 0 | Some i \<Rightarrow> weight (clusters (snd ms) ! i))"

definition predOf :: "('sec \<rightharpoonup> nat) \<times> 'sec CallGraphSort \<Rightarrow> 'sec \<Rightarrow> Edge" where
  "predOf ms s =
     (case fst ms s of None \<Rightarrow> \<lparr>efrom = - 1, eweight = 0\<rparr> | Some i \<Rightarrow> bestPred (clusters (snd ms) ! i))"

definition nodeOf :: "('sec \<rightharpoonup> nat) \<times> 'sec CallGraphSort \<Rightarrow> 'sec \<Rightarrow> nat" where
  "nodeOf ms s = (case fst ms s of None \<Rightarrow> length (clusters (snd ms)) | Some i \<Rightarrow> i)"

definition kept :: "('sec, 'os) SecInfo \<Rightarrow> ('sec \<times> 'sec) \<times> 64 word \<Rightarrow> bool" where
  "kept I c = (getOutputSection I (repl I (fst (fst c))) = getOutputSection I (repl I (snd (fst c))))"

definition graph_inv :: "('sec \<rightharpoonup> nat) \<times> 'sec CallGraphSort \<Rightarrow> bool" where
  "graph_inv ms =
     (length (sections (snd ms)) = length (clusters (snd ms)) \<and>
      (\<forall>s i. fst ms s = Some i \<longleftrightarrow> (i < length (sections (snd ms)) \<and> sections (snd ms) ! i = s)))"



text \<open>
  For the clusters: \<open>linked cs r xs\<close> says that \<open>next\<close> leads from each element of \<open>xs\<close> to
  the one after it and from the last one to \<open>r\<close>; with \<open>r\<close> at the head this makes \<open>xs\<close> the
  cycle of \<open>r\<close> in traversal order. \<open>number\<close> gives the sections of a list of indices
  consecutive numbers.
\<close>

fun linked :: "Cluster list \<Rightarrow> nat \<Rightarrow> nat list \<Rightarrow> bool" where
  "linked cs r [] = False"
| "linked cs r [x] = (next (cs ! x) = r)"
| "linked cs r (x # y # ys) = (next (cs ! x) = y \<and> linked cs r (y # ys))"

definition number :: "'sec list \<Rightarrow> nat list \<Rightarrow> ('sec \<rightharpoonup> int) \<times> int \<Rightarrow> ('sec \<rightharpoonup> int) \<times> int" where
  "number secs xs oc = fold (\<lambda>x oc. ((fst oc)(secs ! x \<mapsto> snd oc), snd oc + 1)) xs oc"




section \<open>Properties of the symbol table\<close>

subsection \<open>insert and find\<close>

lemma find_char_None: "find_char c s = None \<longleftrightarrow> c \<notin> set s"
  by (induction s) (auto split: option.splits)

lemma find_char_append_notin: "c \<notin> set b \<Longrightarrow> find_char c (b @ c # r) = Some (length b)"
  by (induction b) auto

lemma strip_default: "CHR ''@'' \<notin> set base \<Longrightarrow> stripDefaultVersion (base @ ''@@'' @ ver) = base"
  by (simp add: stripDefaultVersion_def find_char_append_notin nth_append)

lemma strip_plain: "CHR ''@'' \<notin> set base \<Longrightarrow> stripDefaultVersion base = base"
  using find_char_None[of "CHR ''@''" base] by (simp add: stripDefaultVersion_def)

lemma find_char_Some: "find_char c s = Some p \<Longrightarrow> p < length s \<and> s ! p = c \<and> c \<notin> set (take p s)"
  by (induction s arbitrary: p) (auto split: option.splits if_splits)

lemma strip_idem: "stripDefaultVersion (stripDefaultVersion nm) = stripDefaultVersion nm"
proof (cases "find_char CHR ''@'' nm")
  case None then show ?thesis by (simp add: stripDefaultVersion_def)
next
  case (Some p)
  then have "CHR ''@'' \<notin> set (take p nm)" using find_char_Some by blast
  then have "stripDefaultVersion (take p nm) = take p nm" by (rule strip_plain)
  then show ?thesis using Some by (simp add: stripDefaultVersion_def)
qed

lemma insert_hit: "symMap st (stripDefaultVersion nm) = Some i \<Longrightarrow> insert_sym raw nm st = (i, st)"
  by (simp add: insert_sym_def)

lemma insert_miss:
  "symMap st (stripDefaultVersion nm) = None \<Longrightarrow>
   fst (insert_sym raw nm st) = length (symVector st) \<and>
   symMap (snd (insert_sym raw nm st)) = (symMap st)(stripDefaultVersion nm \<mapsto> length (symVector st)) \<and>
   length (symVector (snd (insert_sym raw nm st))) = Suc (length (symVector st)) \<and>
   (\<forall>i < length (symVector st). symVector (snd (insert_sym raw nm st)) ! i = symVector st ! i) \<and>
   name (symVector (snd (insert_sym raw nm st)) ! length (symVector st)) = stripDefaultVersion nm \<and>
   isPlaceholder (symVector (snd (insert_sym raw nm st)) ! length (symVector st))"
  by (simp add: insert_sym_def Let_def nth_append isPlaceholder_def)

lemma insert_bound:
  "symMap (snd (insert_sym raw nm st)) (stripDefaultVersion nm) = Some (fst (insert_sym raw nm st))"
  by (cases "symMap st (stripDefaultVersion nm)") (simp_all add: insert_miss insert_hit)

lemma insert_twice:
  "insert_sym raw' nm (snd (insert_sym raw nm st)) = insert_sym raw nm st"
  using insert_bound[of raw nm st] insert_hit[of "snd (insert_sym raw nm st)" nm "fst (insert_sym raw nm st)" raw']
  by simp

lemma table_inv_empty: "table_inv emptyTable"
  by (simp add: table_inv_def emptyTable_def)

lemma table_inv_insert:
  assumes "table_inv st"
  shows "table_inv (snd (insert_sym raw nm st))"
proof (cases "symMap st (stripDefaultVersion nm)")
  case (Some i)
  then show ?thesis using assms by (simp add: insert_hit)
next
  case None
  let ?k = "stripDefaultVersion nm"
  let ?n = "length (symVector st)"
  let ?st' = "snd (insert_sym raw nm st)"
  note m = insert_miss[OF None, of raw]
  have A: "\<And>k i. symMap st k = Some i \<Longrightarrow> i < ?n \<and> name (symVector st ! i) = k \<and> stripDefaultVersion k = k"
    using assms unfolding table_inv_def by blast
  have B: "\<And>i. i < ?n \<Longrightarrow> symMap st (name (symVector st ! i)) = Some i"
    using assms unfolding table_inv_def by blast
  have 1: "i < length (symVector ?st') \<and> name (symVector ?st' ! i) = k \<and> stripDefaultVersion k = k"
    if "symMap ?st' k = Some i" for k i
  proof (cases "k = ?k")
    case True
    then have "i = ?n" using that m by simp
    then show ?thesis using True m strip_idem by simp
  next
    case False
    then have "symMap st k = Some i" using that m by simp
    from A[OF this] show ?thesis using m by simp
  qed
  have 2: "symMap ?st' (name (symVector ?st' ! i)) = Some i" if "i < length (symVector ?st')" for i
  proof (cases "i < ?n")
    case True
    then have e: "symVector ?st' ! i = symVector st ! i" using m by blast
    have "name (symVector st ! i) \<noteq> ?k" using B[OF True] None by auto
    then show ?thesis using B[OF True] e m by simp
  next
    case False
    then have "i = ?n" using that m by simp
    then show ?thesis using m by simp
  qed
  show ?thesis unfolding table_inv_def using 1 2 by blast
qed

lemma table_inv_names_inj:
  "table_inv st \<Longrightarrow> i < length (symVector st) \<Longrightarrow> j < length (symVector st) \<Longrightarrow>
   name (symVector st ! i) = name (symVector st ! j) \<Longrightarrow> i = j"
  unfolding table_inv_def by (metis option.inject)

lemma insert_name:
  assumes "table_inv st"
  shows "fst (insert_sym raw nm st) < length (symVector (snd (insert_sym raw nm st))) \<and>
         name (symVector (snd (insert_sym raw nm st)) ! fst (insert_sym raw nm st)) = stripDefaultVersion nm"
  using table_inv_insert[OF assms, of raw nm] insert_bound[of raw nm st]
  unfolding table_inv_def by blast

text \<open>
  The cut is made at the first \<open>@\<close> only: a name whose first \<open>@\<close> is followed by
  another character keeps a later \<open>@@\<close>.
\<close>

lemma strip_first_at_only:
  "stripDefaultVersion ''foo@@v1'' = ''foo'' \<and> stripDefaultVersion ''foo@v1'' = ''foo@v1'' \<and>
   stripDefaultVersion ''a@b@@c'' = ''a@b@@c''"
  by (simp add: stripDefaultVersion_def)

text \<open>
  C1. Inserting a name a second time returns the handle of the first call and leaves the
  table as it was. A name \<open>base@@ver\<close> (no \<open>@\<close> in \<open>base\<close>) is inserted as \<open>base\<close>: both
  calls return the same handle. In a table that only \<open>insert\<close> built, the record of the
  returned handle carries the normalised name, and no two records carry the same name.
\<close>

theorem insert_idempotent:
  assumes "table_inv st" and "CHR ''@'' \<notin> set base"
  shows "insert_sym raw' nm (snd (insert_sym raw nm st)) = insert_sym raw nm st \<and>
         insert_sym raw (base @ ''@@'' @ ver) st = insert_sym raw base st \<and>
         fst (insert_sym raw' base (snd (insert_sym raw (base @ ''@@'' @ ver) st)))
           = fst (insert_sym raw (base @ ''@@'' @ ver) st) \<and>
         table_inv (snd (insert_sym raw nm st)) \<and>
         name (symVector (snd (insert_sym raw nm st)) ! fst (insert_sym raw nm st)) = stripDefaultVersion nm \<and>
         (\<forall>i < length (symVector st). \<forall>j < length (symVector st).
           name (symVector st ! i) = name (symVector st ! j) \<longrightarrow> i = j)"
proof -
  have 1: "insert_sym raw' nm (snd (insert_sym raw nm st)) = insert_sym raw nm st" by (rule insert_twice)
  have e: "stripDefaultVersion (base @ ''@@'' @ ver) = stripDefaultVersion base"
    using assms(2) strip_default[of base ver] strip_plain[of base] by simp
  have eq: "insert_sym raw (base @ ''@@'' @ ver) st = insert_sym raw base st"
    unfolding insert_sym_def e ..
  have 3: "fst (insert_sym raw' base (snd (insert_sym raw (base @ ''@@'' @ ver) st)))
           = fst (insert_sym raw (base @ ''@@'' @ ver) st)"
    unfolding eq by (simp add: insert_twice)
  have 4: "table_inv (snd (insert_sym raw nm st))" by (rule table_inv_insert[OF assms(1)])
  have 5: "name (symVector (snd (insert_sym raw nm st)) ! fst (insert_sym raw nm st)) = stripDefaultVersion nm"
    using insert_name[OF assms(1)] by blast
  have 6: "\<forall>i < length (symVector st). \<forall>j < length (symVector st).
           name (symVector st ! i) = name (symVector st ! j) \<longrightarrow> i = j"
    using table_inv_names_inj[OF assms(1)] by blast
  from 1 eq 3 4 5 6 show ?thesis by blast
qed

theorem insert_idempotent_witness:
  "insert_sym rawSymbol ''foo@@v1'' emptyTable = insert_sym rawSymbol ''foo'' emptyTable \<and>
   fst (insert_sym rawSymbol ''foo'' (snd (insert_sym rawSymbol ''foo@@v1'' emptyTable))) = 0 \<and>
   table_inv (snd (insert_sym rawSymbol ''foo'' emptyTable))"
proof -
  have h: "CHR ''@'' \<notin> set ''foo''" by simp
  note t = insert_idempotent[OF table_inv_empty h, where raw = rawSymbol and raw' = rawSymbol
      and nm = "''foo''" and ver = "''v1''"]
  have c: "''foo'' @ ''@@'' @ ''v1'' = ''foo@@v1''" by simp
  have v: "fst (insert_sym rawSymbol ''foo'' emptyTable) = 0"
    by (simp add: insert_sym_def stripDefaultVersion_def emptyTable_def Let_def)
  from t have a: "insert_sym rawSymbol ''foo@@v1'' emptyTable = insert_sym rawSymbol ''foo'' emptyTable"
    unfolding c by blast
  from t have b: "fst (insert_sym rawSymbol ''foo'' (snd (insert_sym rawSymbol ''foo@@v1'' emptyTable)))
      = fst (insert_sym rawSymbol ''foo@@v1'' emptyTable)"
    unfolding c by blast
  from t have d: "table_inv (snd (insert_sym rawSymbol ''foo'' emptyTable))" by blast
  show ?thesis using a b d v by simp
qed

text \<open>
  C9. \<open>find\<close> does not normalise. In a table whose keys are normalised names (as all keys
  that \<open>insert\<close> makes are), after \<open>insert\<close> of \<open>base@@ver\<close> (no \<open>@\<close> in \<open>base\<close>) has
  returned the handle \<open>h\<close> and the record of \<open>h\<close> has stopped being a placeholder, \<open>find\<close>
  of \<open>base@@ver\<close> finds nothing and \<open>find\<close> of \<open>base\<close> returns \<open>h\<close>.
\<close>

theorem find_not_normalized:
  assumes "\<forall>k i. symMap st k = Some i \<longrightarrow> stripDefaultVersion k = k"
      and "CHR ''@'' \<notin> set base"
      and "insert_sym raw (base @ ''@@'' @ ver) st = (h, st1)"
      and "symMap st2 = symMap st1"
      and "\<not> isPlaceholder (symVector st2 ! h)"
  shows "find_sym (base @ ''@@'' @ ver) st2 = None \<and> find_sym base st2 = Some h"
proof -
  let ?nm = "base @ ''@@'' @ ver"
  have e: "stripDefaultVersion ?nm = base"
    using assms(2) strip_default[of base ver] by simp
  have ne: "?nm \<noteq> base" by simp
  have b: "symMap st1 base = Some h"
    using insert_bound[of raw ?nm st] assms(3) e by simp
  have old: "symMap st ?nm = None"
  proof (cases "symMap st ?nm")
    case (Some i)
    then have "stripDefaultVersion ?nm = ?nm" using assms(1) by blast
    then show ?thesis using e ne by simp
  qed simp
  have "symMap st1 ?nm = symMap st ?nm"
  proof (cases "symMap st (stripDefaultVersion ?nm)")
    case None
    from insert_miss[OF None, of raw] assms(3) have "symMap st1 = (symMap st)(base \<mapsto> length (symVector st))"
      unfolding e by simp
    then show ?thesis using ne by simp
  next
    case (Some i)
    from insert_hit[OF Some, of raw] assms(3) show ?thesis by simp
  qed
  then have "symMap st1 ?nm = None" using old by simp
  then show ?thesis using b assms(4,5) by (simp add: find_sym_def)
qed

theorem find_not_normalized_witness:
  "find_sym ''foo@@v1''
     ((snd (insert_sym rawSymbol ''foo@@v1'' emptyTable))\<lparr>symVector := [sampleSym ''foo@@v1'' DefinedKind]\<rparr>) = None \<and>
   find_sym ''foo''
     ((snd (insert_sym rawSymbol ''foo@@v1'' emptyTable))\<lparr>symVector := [sampleSym ''foo@@v1'' DefinedKind]\<rparr>) = Some 0"
proof -
  let ?st1 = "snd (insert_sym rawSymbol ''foo@@v1'' emptyTable)"
  let ?st2 = "?st1\<lparr>symVector := [sampleSym ''foo@@v1'' DefinedKind]\<rparr>"
  have n: "\<forall>k i. symMap emptyTable k = Some i \<longrightarrow> stripDefaultVersion k = k"
    by (simp add: emptyTable_def)
  have h: "CHR ''@'' \<notin> set ''foo''" by simp
  have c: "''foo'' @ ''@@'' @ ''v1'' = ''foo@@v1''" by simp
  have i: "insert_sym rawSymbol (''foo'' @ ''@@'' @ ''v1'') emptyTable = (0, ?st1)"
    by (simp add: insert_sym_def stripDefaultVersion_def emptyTable_def Let_def)
  have m: "symMap ?st2 = symMap ?st1" by simp
  have k: "\<not> isPlaceholder (symVector ?st2 ! 0)"
    by (simp add: isPlaceholder_def sampleSym_def)
  show ?thesis using find_not_normalized[OF n h i m k] unfolding c .
qed

subsection \<open>wrap\<close>

lemma wrap_symMap:
  "symMap (wrap sy re wr st) =
     (let n1 = name (symVector st ! sy); n2 = name (symVector st ! re); n3 = name (symVector st ! wr);
          m0 = touch n3 (touch n2 (touch n1 (symMap st)));
          m1 = m0(n2 \<mapsto> slot m0 n1)
      in m1(n1 \<mapsto> slot m1 n3))"
  by (simp add: wrap_def Let_def)

lemma wrap_symVector:
  "sy < length (symVector st) \<Longrightarrow> re < length (symVector st) \<Longrightarrow> sy \<noteq> re \<Longrightarrow>
   symVector (wrap sy re wr st) ! sy =
     (let s = symVector st ! sy; r = symVector st ! re;
          s1 = (if exportDynamic r then s\<lparr>exportDynamic := True\<rparr> else s)
      in if \<not> isUsedInRegularObj r \<and> isUndefined s then s1\<lparr>isUsedInRegularObj := False\<rparr> else s1) \<and>
   symVector (wrap sy re wr st) ! re = (symVector (wrap sy re wr st) ! sy)\<lparr>isUsedInRegularObj := False\<rparr> \<and>
   length (symVector (wrap sy re wr st)) = length (symVector st) \<and>
   (\<forall>i. i \<noteq> sy \<longrightarrow> i \<noteq> re \<longrightarrow> symVector (wrap sy re wr st) ! i = symVector st ! i)"
  by (simp add: wrap_def Let_def isUndefined_def)

text \<open>
  C10. \<open>wrap\<close> rebinds the names of \<open>sym\<close> and \<open>real\<close> only. Where the name of \<open>wrap\<close> is
  bound and differs from both, its binding stays, every other binding stays, and the name
  of \<open>sym\<close> ends bound to the same handle as the name of \<open>wrap\<close>.
\<close>

theorem wrap_bindings_frame:
  assumes "symMap st (name (symVector st ! wr)) = Some h3"
      and "name (symVector st ! wr) \<noteq> name (symVector st ! sy)"
      and "name (symVector st ! wr) \<noteq> name (symVector st ! re)"
  shows "(\<forall>k. k \<noteq> name (symVector st ! sy) \<longrightarrow> k \<noteq> name (symVector st ! re) \<longrightarrow>
              symMap (wrap sy re wr st) k = symMap st k) \<and>
         symMap (wrap sy re wr st) (name (symVector st ! wr)) = Some h3 \<and>
         symMap (wrap sy re wr st) (name (symVector st ! sy)) = Some h3"
  using assms unfolding wrap_symMap Let_def touch_def slot_def
  by (auto split: option.splits)

theorem wrap_bindings_frame_witness:
  "symMap (wrap 0 1 2 wrapTable) ''__wrap_foo'' = Some 2 \<and>
   symMap (wrap 0 1 2 wrapTable) ''foo'' = Some 2 \<and>
   symMap wrapTable ''__wrap_foo'' = Some 2 \<and>
   symMap (wrap 0 1 2 wrapTable) ''bar'' = symMap wrapTable ''bar''"
proof -
  have n: "name (symVector wrapTable ! 0) = ''foo''" "name (symVector wrapTable ! 1) = ''__real_foo''"
          "name (symVector wrapTable ! 2) = ''__wrap_foo''"
    by (simp_all add: wrapTable_def tableOf_def sampleSym_def)
  have b: "symMap wrapTable ''__wrap_foo'' = Some 2"
    by (simp add: wrapTable_def tableOf_def sampleSym_def stripDefaultVersion_def)
  have t: "(\<forall>k. k \<noteq> ''foo'' \<longrightarrow> k \<noteq> ''__real_foo'' \<longrightarrow> symMap (wrap 0 1 2 wrapTable) k = symMap wrapTable k) \<and>
         symMap (wrap 0 1 2 wrapTable) ''__wrap_foo'' = Some 2 \<and>
         symMap (wrap 0 1 2 wrapTable) ''foo'' = Some 2"
    using wrap_bindings_frame[of wrapTable 2 2 0 1] b unfolding n by simp
  then have "symMap (wrap 0 1 2 wrapTable) ''bar'' = symMap wrapTable ''bar''" by simp
  with t b show ?thesis by simp
qed

text \<open>
  C2, as amended. After \<open>wrap\<close> (distinct records \<open>sym\<close> and \<open>real\<close>, the names of \<open>sym\<close> and
  \<open>wrap\<close> different from the name of \<open>real\<close>, the name of \<open>sym\<close> bound to \<open>sym\<close>, the name
  of \<open>wrap\<close> bound to \<open>h3\<close>): the name of \<open>sym\<close> is bound to \<open>h3\<close>; the name of \<open>real\<close> is
  bound to the handle of \<open>sym\<close>, whose record is what \<open>sym\<close> held before with
  \<open>exportDynamic\<close> set if \<open>real\<close> had it set and \<open>isUsedInRegularObj\<close> cleared if \<open>real\<close> was
  not used in a regular object and \<open>sym\<close> is undefined; the record of \<open>real\<close> is a copy of
  that record with \<open>isUsedInRegularObj\<close> cleared. Where neither flag update applies, the
  record \<open>real\<close>'s name resolves to is exactly what \<open>sym\<close> held before.
\<close>

theorem wrap_effect:
  assumes "sy < length (symVector st)" and "re < length (symVector st)" and "sy \<noteq> re"
      and "name (symVector st ! sy) \<noteq> name (symVector st ! re)"
      and "name (symVector st ! wr) \<noteq> name (symVector st ! re)"
      and "symMap st (name (symVector st ! sy)) = Some sy"
      and "symMap st (name (symVector st ! wr)) = Some h3"
  shows "symMap (wrap sy re wr st) (name (symVector st ! sy)) = Some h3 \<and>
         symMap (wrap sy re wr st) (name (symVector st ! re)) = Some sy \<and>
         resolve (wrap sy re wr st) (name (symVector st ! re)) =
           Some (let s = symVector st ! sy; r = symVector st ! re;
                     s1 = (if exportDynamic r then s\<lparr>exportDynamic := True\<rparr> else s)
                 in if \<not> isUsedInRegularObj r \<and> isUndefined s then s1\<lparr>isUsedInRegularObj := False\<rparr> else s1) \<and>
         symVector (wrap sy re wr st) ! re =
           (let s = symVector st ! sy; r = symVector st ! re;
                s1 = (if exportDynamic r then s\<lparr>exportDynamic := True\<rparr> else s)
            in s1\<lparr>isUsedInRegularObj := False\<rparr>) \<and>
         (\<not> exportDynamic (symVector st ! re) \<and>
          (isUsedInRegularObj (symVector st ! re) \<or> \<not> isUndefined (symVector st ! sy)) \<longrightarrow>
            resolve (wrap sy re wr st) (name (symVector st ! re)) = Some (symVector st ! sy) \<and>
            symVector (wrap sy re wr st) ! re = (symVector st ! sy)\<lparr>isUsedInRegularObj := False\<rparr>)"
proof -
  have 1: "symMap (wrap sy re wr st) (name (symVector st ! sy)) = Some h3"
    using assms(5,7) unfolding wrap_symMap Let_def touch_def slot_def
    by (auto split: option.splits)
  have 2: "symMap (wrap sy re wr st) (name (symVector st ! re)) = Some sy"
    using assms(4,6) unfolding wrap_symMap Let_def touch_def slot_def
    by (auto split: option.splits)
  note v = wrap_symVector[OF assms(1,2,3), of wr]
  show ?thesis using 1 2 v by (auto simp: resolve_def Let_def)
qed

theorem wrap_effect_witness:
  "symMap (wrap 0 1 2 wrapTable) ''foo'' = Some 2 \<and>
   symMap (wrap 0 1 2 wrapTable) ''__real_foo'' = Some 0 \<and>
   resolve (wrap 0 1 2 wrapTable) ''__real_foo'' = Some ((symVector wrapTable ! 0)\<lparr>exportDynamic := True\<rparr>) \<and>
   symVector (wrap 0 1 2 wrapTable) ! 1 =
      (symVector wrapTable ! 0)\<lparr>exportDynamic := True, isUsedInRegularObj := False\<rparr>"
proof -
  have n: "name (symVector wrapTable ! 0) = ''foo''" "name (symVector wrapTable ! 1) = ''__real_foo''"
          "name (symVector wrapTable ! 2) = ''__wrap_foo''"
    by (simp_all add: wrapTable_def tableOf_def sampleSym_def)
  have b: "symMap wrapTable ''__wrap_foo'' = Some 2" "symMap wrapTable ''foo'' = Some 0"
    by (simp_all add: wrapTable_def tableOf_def sampleSym_def stripDefaultVersion_def)
  have l: "(0::nat) < length (symVector wrapTable)" "(1::nat) < length (symVector wrapTable)"
    by (simp_all add: wrapTable_def tableOf_def)
  have f: "exportDynamic (symVector wrapTable ! 1)" "\<not> isUndefined (symVector wrapTable ! 0)"
    by (simp_all add: wrapTable_def tableOf_def sampleSym_def isUndefined_def)
  show ?thesis
    using wrap_effect[of 0 wrapTable 1 2 2] b l f unfolding n by (simp add: Let_def)
qed

text \<open>
  C2 as stated fails where \<open>real\<close> is exported and \<open>sym\<close> is not: the record that the
  name of \<open>real\<close> resolves to, and the copy in the record of \<open>real\<close>, have \<open>exportDynamic\<close>
  set, which \<open>sym\<close> did not have before the call.
\<close>

theorem wrap_content_counterexample:
  "map_option exportDynamic (resolve (wrap 0 1 2 wrapTable) ''__real_foo'') = Some True \<and>
   exportDynamic (symVector wrapTable ! 0) = False \<and>
   exportDynamic (symVector (wrap 0 1 2 wrapTable) ! 1) = True"
  by (simp add: wrap_def resolve_def wrapTable_def tableOf_def sampleSym_def rawSymbol_def
      stripDefaultVersion_def touch_def slot_def Let_def isUndefined_def)

subsection \<open>Version assignment: what a rule can change\<close>

lemma gate_refl: "gate a a" by (simp add: gate_def)

lemma gate_trans: "gate a b \<Longrightarrow> gate b c \<Longrightarrow> gate a c"
  unfolding gate_def by auto

lemma gate_name_kind: "gate a b \<Longrightarrow> name b = name a \<and> symbolKind b = symbolKind a"
  unfolding gate_def by auto


lemma canBeVersioned_cong: "symbolKind b = symbolKind a \<Longrightarrow> canBeVersioned b = canBeVersioned a"
  by (simp add: canBeVersioned_def isDefined_def isCommon_def isLazy_def)

lemma buildDemangled_cong:
  assumes "length v' = length v" and "\<forall>i. name (v' ! i) = name (v ! i) \<and> symbolKind (v' ! i) = symbolKind (v ! i)"
  shows "buildDemangled E v' = buildDemangled E v"
proof -
  have "(\<lambda>i m. if canBeVersioned (v' ! i) then push_back_at (demangledName E (name (v' ! i))) i m else m)
      = (\<lambda>i m. if canBeVersioned (v ! i) then push_back_at (demangledName E (name (v ! i))) i m else m)"
    using assms(2) canBeVersioned_cong by (intro ext) metis
  then show ?thesis unfolding buildDemangled_def assms(1) by simp
qed

lemma assigns_only_refl: "assigns_only E st st"
  by (simp add: assigns_only_def gate_refl)

lemma assigns_only_trans:
  assumes "assigns_only E a b" and "assigns_only E b c"
  shows "assigns_only E a c"
proof -
  have g: "\<forall>i. gate (symVector a ! i) (symVector c ! i)"
    using assms gate_trans unfolding assigns_only_def by blast
  have nk: "\<forall>i. name (symVector b ! i) = name (symVector a ! i) \<and> symbolKind (symVector b ! i) = symbolKind (symVector a ! i)"
    using assms(1) gate_name_kind unfolding assigns_only_def by blast
  have len: "length (symVector b) = length (symVector a)" using assms(1) unfolding assigns_only_def by blast
  have bd: "buildDemangled E (symVector b) = buildDemangled E (symVector a)"
    by (rule buildDemangled_cong[OF len nk])
  have c: "demangledSyms c = demangledSyms a \<or>
       (demangledSyms a = None \<and> demangledSyms c = Some (buildDemangled E (symVector a)))"
    using assms bd unfolding assigns_only_def by auto
  have d: "\<exists>ds. diags c = diags a @ ds"
    using assms unfolding assigns_only_def by auto
  show ?thesis unfolding assigns_only_def using g c d assms unfolding assigns_only_def by auto
qed

lemma setVersion_gate: "gate (symVector st ! j) (symVector (setVersion vid i st) ! j)"
proof (cases "verdefIndex (symVector st ! i) = - 1 \<and> i < length (symVector st) \<and> j = i")
  case True
  then show ?thesis unfolding setVersion_def gate_def by auto
next
  case False
  have "symVector (setVersion vid i st) ! j = symVector st ! j"
    using False unfolding setVersion_def
    by (auto simp: nth_list_update list_update_beyond not_less)
  then show ?thesis by (simp add: gate_def)
qed

lemma setVersion_only: "assigns_only E st (setVersion vid i st)"
  unfolding assigns_only_def using setVersion_gate by (auto simp: setVersion_def)

lemma fold_assigns_only:
  assumes "\<And>x s. assigns_only E s (f x s)"
  shows "assigns_only E st (fold f xs st)"
proof (induction xs arbitrary: st)
  case Nil show ?case by (simp add: assigns_only_refl)
next
  case (Cons x xs)
  show ?case using assigns_only_trans[OF assms[of st x] Cons[of "f x st"]] by simp
qed

lemma getDemangledSyms_only: "assigns_only E st (snd (getDemangledSyms E st))"
  by (auto simp: getDemangledSyms_def assigns_only_def gate_refl Let_def split: option.splits)

lemma findByVersion_only: "assigns_only E st (snd (findByVersion E ver st))"
  using getDemangledSyms_only[of E st]
  by (auto simp: findByVersion_def assigns_only_refl split: option.splits prod.splits)

lemma findAllByVersion_only: "assigns_only E st (snd (findAllByVersion E ver incl st))"
  using getDemangledSyms_only[of E st]
  by (auto simp: findAllByVersion_def assigns_only_refl split: option.splits prod.splits)

lemma diag_only: "assigns_only E s (s\<lparr>diags := diags s @ ds\<rparr>)"
  by (simp add: assigns_only_def gate_refl)

lemma assignExactSym_cases:
  "assignExactSym cfg ver vid incl i st = st \<or>
   assignExactSym cfg ver vid incl i st = setVersion vid i st \<or>
   assignExactSym cfg ver vid incl i st = (setVersion vid i st)\<lparr>diags := diags (setVersion vid i st) @
      [Warn (reassignMessage cfg ver (versionId (symVector (setVersion vid i st) ! i)) vid)]\<rparr>"
  unfolding assignExactSym_def Let_def by simp

lemma assignExactSym_only: "assigns_only E st (assignExactSym cfg ver vid incl i st)"
  using assignExactSym_cases[of cfg ver vid incl i st] setVersion_only[of E st vid i]
    assigns_only_trans[OF setVersion_only diag_only, of E st vid i] assigns_only_refl[of E st]
  by metis

lemma assignExactVersion_only: "assigns_only E st (snd (assignExactVersion E cfg ver vid vn incl st))"
  unfolding assignExactVersion_def
  using assigns_only_trans[OF findByVersion_only fold_assigns_only[of E "assignExactSym cfg ver vid incl", OF assignExactSym_only]]
  by (simp add: split_def Let_def)

lemma assignWildcardVersion_only: "assigns_only E st (assignWildcardVersion E ver vid incl st)"
  unfolding assignWildcardVersion_def
  using assigns_only_trans[OF findAllByVersion_only fold_assigns_only[of E "setVersion vid", OF setVersion_only]]
  by (simp add: split_def Let_def)

lemma assignWildcard_only: "assigns_only E st (assignWildcard E pat vid ver st)"
  unfolding assignWildcard_def
  using assigns_only_trans[OF assignWildcardVersion_only assignWildcardVersion_only] .

lemma assignExact_only: "assigns_only E st (assignExact E cfg v pat vid ver st)"
proof -
  let ?a = "assignExactVersion E cfg pat vid ver False st"
  let ?b = "assignExactVersion E cfg (withVersion pat (ver_name v) False) vid ver True (snd ?a)"
  have 1: "assigns_only E st (snd ?b)"
    using assigns_only_trans[OF assignExactVersion_only assignExactVersion_only] .
  show ?thesis unfolding assignExact_def Let_def split_def
    using 1 assigns_only_trans[OF 1 diag_only] by simp
qed

lemma exactBlock_only: "assigns_only E st (exactBlock E cfg v st)"
  unfolding exactBlock_def
  by (intro assigns_only_trans[OF fold_assigns_only fold_assigns_only])
     (simp_all add: assignExact_only assigns_only_refl)

lemma wildcardBlock_only: "assigns_only E st (wildcardBlock E v st)"
  unfolding wildcardBlock_def
  by (intro assigns_only_trans[OF fold_assigns_only fold_assigns_only])
     (simp_all add: assignWildcard_only assigns_only_refl)

lemma starBlock_only: "assigns_only E st (starBlock E v st)"
  unfolding starBlock_def
  by (intro assigns_only_trans[OF fold_assigns_only fold_assigns_only])
     (simp_all add: assignWildcard_only assigns_only_refl)

lemma scanExact_only: "assigns_only E st (scanExact E cfg st)"
  unfolding scanExact_def by (rule fold_assigns_only) (rule exactBlock_only)

lemma scanWildcard_only: "assigns_only E st (scanWildcard E cfg st)"
  unfolding scanWildcard_def by (rule fold_assigns_only) (rule wildcardBlock_only)

lemma scanStar_only: "assigns_only E st (scanStar E cfg st)"
  unfolding scanStar_def by (rule fold_assigns_only) (rule starBlock_only)


subsection \<open>Version assignment: lookups and diagnostics\<close>

lemma assigns_only_name_kind:
  "assigns_only E st st' \<Longrightarrow>
   name (symVector st' ! i) = name (symVector st ! i) \<and> symbolKind (symVector st' ! i) = symbolKind (symVector st ! i)"
  unfolding assigns_only_def using gate_name_kind by blast

lemma assigns_only_cache:
  assumes "assigns_only E st st'"
  shows "fst (getDemangledSyms E st') = fst (getDemangledSyms E st)"
proof -
  have len: "length (symVector st') = length (symVector st)" using assms unfolding assigns_only_def by blast
  have bd: "buildDemangled E (symVector st') = buildDemangled E (symVector st)"
    using buildDemangled_cong[OF len] assigns_only_name_kind[OF assms] by blast
  have "demangledSyms st' = demangledSyms st \<or>
       (demangledSyms st = None \<and> demangledSyms st' = Some (buildDemangled E (symVector st)))"
    using assms unfolding assigns_only_def by blast
  then show ?thesis using bd by (auto simp: getDemangledSyms_def Let_def split: option.splits)
qed


lemma findByVersion_cong:
  assumes "assigns_only E st st'"
  shows "fst (findByVersion E ver st') = fst (findByVersion E ver st)"
proof (cases "isExternCpp ver")
  case True
  then show ?thesis using assigns_only_cache[OF assms] by (simp add: findByVersion_def split_def Let_def)
next
  case False
  have m: "symMap st' = symMap st" using assms unfolding assigns_only_def by blast
  have k: "\<And>i. symbolKind (symVector st' ! i) = symbolKind (symVector st ! i)"
    using assigns_only_name_kind[OF assms] by blast
  have f: "find_sym (pat_name ver) st' = find_sym (pat_name ver) st"
    unfolding find_sym_def m isPlaceholder_def k ..
  show ?thesis using False unfolding findByVersion_def f
    by (simp add: canBeVersioned_cong[OF k] split: option.splits)
qed


lemma findsNone_cong: "assigns_only E st st' \<Longrightarrow> findsNone E st' v pat = findsNone E st v pat"
  by (simp add: findsNone_def findByVersion_cong)

text \<open>Diagnostics: which functions add errors.\<close>

lemma setVersion_diags: "diags (setVersion vid i st) = diags st"
  by (simp add: setVersion_def)

lemma fold_setVersion_diags: "diags (fold (setVersion vid) xs st) = diags st"
  by (induction xs arbitrary: st) (simp_all add: setVersion_diags)

lemma getDemangledSyms_diags: "diags (snd (getDemangledSyms E st)) = diags st"
  by (simp add: getDemangledSyms_def Let_def split: option.splits)

lemma findByVersion_diags: "diags (snd (findByVersion E ver st)) = diags st"
  by (simp add: findByVersion_def split_def Let_def getDemangledSyms_diags split: option.splits)

lemma findAllByVersion_diags: "diags (snd (findAllByVersion E ver incl st)) = diags st"
  by (simp add: findAllByVersion_def split_def Let_def getDemangledSyms_diags)

lemma assignWildcardVersion_diags: "diags (assignWildcardVersion E ver vid incl st) = diags st"
  by (simp add: assignWildcardVersion_def split_def Let_def fold_setVersion_diags findAllByVersion_diags)

lemma assignWildcard_diags: "diags (assignWildcard E pat vid ver st) = diags st"
  by (simp add: assignWildcard_def assignWildcardVersion_diags)

lemma fold_keeps_diags:
  assumes "\<And>x s. diags (f x s) = diags s"
  shows "diags (fold f xs st) = diags st"
  by (induction xs arbitrary: st) (simp_all add: assms)

lemma wildcardBlock_diags: "diags (wildcardBlock E v st) = diags st"
  unfolding wildcardBlock_def
  by (simp add: fold_keeps_diags assignWildcard_diags)

lemma starBlock_diags: "diags (starBlock E v st) = diags st"
  unfolding starBlock_def
  by (simp add: fold_keeps_diags assignWildcard_diags)

lemma scanWildcard_diags: "diags (scanWildcard E cfg st) = diags st"
  unfolding scanWildcard_def by (simp add: fold_keeps_diags wildcardBlock_diags)

lemma scanStar_diags: "diags (scanStar E cfg st) = diags st"
  unfolding scanStar_def by (simp add: fold_keeps_diags starBlock_diags)

lemma assignExactSym_errors: "filter isError (diags (assignExactSym cfg ver vid incl i st)) = filter isError (diags st)"
  using assignExactSym_cases[of cfg ver vid incl i st]
  by (auto simp: setVersion_diags isError_def)

lemma fold_keeps_errors:
  assumes "\<And>x s. filter isError (diags (f x s)) = filter isError (diags s)"
  shows "filter isError (diags (fold f xs st)) = filter isError (diags st)"
  by (induction xs arbitrary: st) (simp_all add: assms)

lemma assignExactVersion_errors:
  "filter isError (diags (snd (assignExactVersion E cfg ver vid vn incl st))) = filter isError (diags st)"
  by (simp add: assignExactVersion_def split_def Let_def fold_keeps_errors assignExactSym_errors findByVersion_diags)

lemma assignExactVersion_found:
  "fst (assignExactVersion E cfg ver vid vn incl st) = (fst (findByVersion E ver st) \<noteq> [])"
  by (simp add: assignExactVersion_def split_def Let_def)

lemma assignExact_errors:
  "filter isError (diags (assignExact E cfg v pat vid ver st)) =
     filter isError (diags st) @
     (if findsNone E st v pat \<and> \<not> undefinedVersion cfg then [missMessage ver pat] else [])"
proof -
  let ?a = "assignExactVersion E cfg pat vid ver False st"
  let ?b = "assignExactVersion E cfg (withVersion pat (ver_name v) False) vid ver True (snd ?a)"
  have fa: "fst ?a = (fst (findByVersion E pat st) \<noteq> [])" by (rule assignExactVersion_found)
  have fb: "fst ?b = (fst (findByVersion E (withVersion pat (ver_name v) False) st) \<noteq> [])"
    unfolding assignExactVersion_found
    using findByVersion_cong[OF assignExactVersion_only[of E st cfg pat vid ver False]] by simp
  have e: "filter isError (diags (snd ?b)) = filter isError (diags st)"
    by (simp add: assignExactVersion_errors)
  have m: "isError (missMessage ver pat)" by (simp add: isError_def missMessage_def)
  show ?thesis
    unfolding assignExact_def split_def Let_def
    using fa fb e m by (auto simp: findsNone_def)
qed

lemma fold_errors:
  assumes step: "\<And>x s. assigns_only E st s \<Longrightarrow>
      assigns_only E s (f x s) \<and> filter isError (diags (f x s)) = filter isError (diags s) @ g x"
    and "assigns_only E st s"
  shows "assigns_only E st (fold f xs s) \<and>
         filter isError (diags (fold f xs s)) = filter isError (diags s) @ concat (map g xs)"
  using assms(2)
proof (induction xs arbitrary: s)
  case Nil then show ?case by simp
next
  case (Cons x xs)
  note s1 = step[OF Cons.prems, of x]
  have a: "assigns_only E st (f x s)" using assigns_only_trans[OF Cons.prems] s1 by blast
  show ?case using Cons.IH[OF a] s1 by simp
qed

lemma map_filter_concat: "map m (filter P xs) = concat (map (\<lambda>x. if P x then [m x] else []) xs)"
  by (induction xs) simp_all

lemma exactBlock_errors:
  assumes "assigns_only E st s"
  shows "assigns_only E st (exactBlock E cfg v s) \<and>
         filter isError (diags (exactBlock E cfg v s)) = filter isError (diags s) @ blockMisses E cfg st v"
proof -
  let ?f1 = "\<lambda>pat s. if \<not> hasWildcard pat then assignExact E cfg v pat (ver_id v) (ver_name v) s else s"
  let ?f2 = "\<lambda>pat s. if \<not> hasWildcard pat then assignExact E cfg v pat VER_NDX_LOCAL ''local'' s else s"
  let ?g1 = "\<lambda>pat. if (\<not> hasWildcard pat \<and> findsNone E st v pat) \<and> \<not> undefinedVersion cfg then [missMessage (ver_name v) pat] else []"
  let ?g2 = "\<lambda>pat. if (\<not> hasWildcard pat \<and> findsNone E st v pat) \<and> \<not> undefinedVersion cfg then [missMessage ''local'' pat] else []"
  have st1: "assigns_only E s' (?f1 x s') \<and> filter isError (diags (?f1 x s')) = filter isError (diags s') @ ?g1 x"
    if "assigns_only E st s'" for x s'
    using assignExact_only[of E s' cfg v x] assignExact_errors[of E cfg v x _ _ s'] findsNone_cong[OF that]
    by (simp add: assigns_only_refl)
  have st2: "assigns_only E s' (?f2 x s') \<and> filter isError (diags (?f2 x s')) = filter isError (diags s') @ ?g2 x"
    if "assigns_only E st s'" for x s'
    using assignExact_only[of E s' cfg v x] assignExact_errors[of E cfg v x _ _ s'] findsNone_cong[OF that]
    by (simp add: assigns_only_refl)
  note a = fold_errors[of E st ?f1 ?g1, OF st1 assms, of "nonLocalPatterns v"]
  note b = fold_errors[of E st ?f2 ?g2, OF st2 conjunct1[OF a], of "localPatterns v"]
  have c: "concat (map ?g1 (nonLocalPatterns v)) @ concat (map ?g2 (localPatterns v)) = blockMisses E cfg st v"
    unfolding blockMisses_def map_filter_concat
    by (cases "undefinedVersion cfg") (simp_all cong: if_cong)
  show ?thesis unfolding exactBlock_def using a b c by simp
qed

lemma scanExact_errors:
  "filter isError (diags (scanExact E cfg st)) =
     filter isError (diags st) @ concat (map (blockMisses E cfg st) (versionDefinitions cfg))"
proof -
  have step: "assigns_only E s (exactBlock E cfg v s) \<and>
      filter isError (diags (exactBlock E cfg v s)) = filter isError (diags s) @ blockMisses E cfg st v"
    if "assigns_only E st s" for v s
    using exactBlock_errors[OF that] exactBlock_only by blast
  show ?thesis unfolding scanExact_def
    using fold_errors[of E st "exactBlock E cfg" "blockMisses E cfg st", OF step assigns_only_refl] by blast
qed

lemma handleDynamicList_diags: "diags (handleDynamicList E cfg st) = diags st"
proof -
  have a: "diags (fold (\<lambda>i t. t\<lparr>symVector := (symVector t)[i := (symVector t ! i)\<lparr>inDynamicList := True\<rparr>]\<rparr>) xs s) = diags s" for xs s
    by (rule fold_keeps_diags) simp
  show ?thesis unfolding handleDynamicList_def
    by (rule fold_keeps_diags) (simp add: split_def Let_def a findAllByVersion_diags findByVersion_diags)
qed

lemma parseAll_diags:
  assumes "\<And>s. snd (parseSymbolVersion E s) = []"
  shows "diags (parseAll E st) = diags st"
  unfolding parseAll_def
  by (rule fold_keeps_diags) (simp add: split_def Let_def assms)

text \<open>The definitions to unfold when a concrete table is evaluated.\<close>

lemmas sample_defs = fooTable_def abcTable_def versionedTable_def tableOf_def sampleSym_def rawSymbol_def
  exactPat_def wildPat_def verDef_def script_def cfgExactStar_def cfgStarExact_def cfgTwoWild_def
  cfgMiss_def cfgWildMiss_def globExt_def

lemmas scan_defs = scanVersionScript_def scanExact_def scanWildcard_def scanStar_def exactBlock_def
  wildcardBlock_def starBlock_def assignExact_def assignWildcard_def assignExactVersion_def
  assignWildcardVersion_def assignExactSym_def setVersion_def findByVersion_def findAllByVersion_def
  find_sym_def check_def canBeVersioned_def isDefined_def isCommon_def isLazy_def isPlaceholder_def
  withVersion_def parseAll_def handleDynamicList_def stripDefaultVersion_def
  VER_NDX_LOCAL_def VER_NDX_GLOBAL_def missMessage_def

subsection \<open>findAllByVersion\<close>











subsection \<open>scanVersionScript: rules that find no symbol\<close>

text \<open>
  C8, as amended. The errors the three passes add are, for every version definition in
  order, one "symbol not defined" error for each pattern without wildcard (non-local
  patterns first, then local ones) that finds no symbol under its name and none under
  \<open>name@version\<close>; with \<open>undefinedVersion\<close> set they add none. The two wildcard passes add
  no diagnostic at all, whatever their patterns match. Where \<open>parseSymbolVersion\<close> reports
  nothing, the diagnostics of \<open>scanVersionScript\<close> are those of the pass over the exact
  patterns.
\<close>

theorem version_script_misses:
  "filter isError (diags (scanStar E cfg (scanWildcard E cfg (scanExact E cfg st)))) =
     filter isError (diags st) @ concat (map (blockMisses E cfg st) (versionDefinitions cfg)) \<and>
   (undefinedVersion cfg \<longrightarrow>
      filter isError (diags (scanStar E cfg (scanWildcard E cfg (scanExact E cfg st)))) = filter isError (diags st)) \<and>
   diags (scanStar E cfg (scanWildcard E cfg s)) = diags s \<and>
   ((\<forall>s. snd (parseSymbolVersion E s) = []) \<longrightarrow>
      diags (scanVersionScript E cfg st) = diags (scanExact E cfg st))"
proof -
  have 1: "filter isError (diags (scanStar E cfg (scanWildcard E cfg (scanExact E cfg st)))) =
     filter isError (diags st) @ concat (map (blockMisses E cfg st) (versionDefinitions cfg))"
    by (simp add: scanStar_diags scanWildcard_diags scanExact_errors)
  have 2: "concat (map (blockMisses E cfg st) (versionDefinitions cfg)) = []" if "undefinedVersion cfg"
    using that by (simp add: blockMisses_def)
  have 3: "diags (scanStar E cfg (scanWildcard E cfg s)) = diags s"
    by (simp add: scanStar_diags scanWildcard_diags)
  have 4: "diags (scanVersionScript E cfg st) = diags (scanExact E cfg st)"
    if "\<forall>s. snd (parseSymbolVersion E s) = []"
    unfolding scanVersionScript_def
    using that by (simp add: handleDynamicList_diags parseAll_diags scanStar_diags scanWildcard_diags)
  show ?thesis using 1 2 3 4 by simp
qed

theorem version_script_misses_witness:
  "diags (scanVersionScript globExt cfgMiss fooTable) = [missMessage ''V1'' (exactPat ''bar'')]"
proof -
  note t = version_script_misses[of globExt cfgMiss fooTable fooTable]
  have p: "\<forall>s. snd (parseSymbolVersion globExt s) = []" by (simp add: globExt_def)
  have e: "diags (scanVersionScript globExt cfgMiss fooTable) = diags (scanExact globExt cfgMiss fooTable)"
    using t p by blast
  have d: "diags (scanExact globExt cfgMiss fooTable) = [missMessage ''V1'' (exactPat ''bar'')]"
    by (simp add: sample_defs scan_defs Let_def)
  show ?thesis using e d by simp
qed

text \<open>
  C8 as stated fails for a wildcard rule: the pattern \<open>zzz*\<close> matches no symbol, the
  override is not set, and \<open>scanVersionScript\<close> reports nothing.
\<close>

theorem wildcard_miss_counterexample:
  "diags (scanVersionScript globExt cfgWildMiss fooTable) = [] \<and>
   undefinedVersion cfgWildMiss = False \<and>
   fst (findAllByVersion globExt (wildPat ''zzz*'') False fooTable) = [] \<and>
   fst (findAllByVersion globExt (withVersion (wildPat ''zzz*'') ''V1'' True) True fooTable) = []"
  by (simp add: sample_defs scan_defs Let_def)

subsection \<open>scanVersionScript: precedence\<close>





lemma scanWildcard_split:
  "versionDefinitions cfg = pre @ v # post \<Longrightarrow>
   scanWildcard E cfg s = fold (wildcardBlock E) (rev pre) (wildcardBlock E v (fold (wildcardBlock E) (rev post) s))"
  by (simp add: scanWildcard_def)



























lemma parseAll_nth:
  assumes "n \<le> length (symVector st)"
  shows "length (symVector (fold (\<lambda>i s. (let (sym', ds) = parseSymbolVersion E (symVector s ! i)
                  in s\<lparr>symVector := (symVector s)[i := sym'], diags := diags s @ ds\<rparr>)) [0..<n] st)) = length (symVector st) \<and>
         (\<forall>i < length (symVector st).
            symVector (fold (\<lambda>i s. (let (sym', ds) = parseSymbolVersion E (symVector s ! i)
                  in s\<lparr>symVector := (symVector s)[i := sym'], diags := diags s @ ds\<rparr>)) [0..<n] st) ! i =
            (if i < n then fst (parseSymbolVersion E (symVector st ! i)) else symVector st ! i))"
  using assms
proof (induction n)
  case 0 then show ?case by simp
next
  case (Suc n)
  then show ?case by (auto simp: split_def Let_def nth_list_update)
qed


lemma parseAll_length: "length (symVector (parseAll E st)) = length (symVector st)"
  unfolding parseAll_def using parseAll_nth[of "length (symVector st)" st E] by simp














text \<open>The three version scripts of the specification, evaluated.\<close>

lemma example_exact_then_star: "versionId (symVector (scanVersionScript globExt cfgExactStar fooTable) ! 0) = 2"
  by (simp add: sample_defs scan_defs Let_def)

lemma example_star_then_exact: "versionId (symVector (scanVersionScript globExt cfgStarExact fooTable) ! 0) = 3"
  by (simp add: sample_defs scan_defs Let_def)

lemma example_two_wildcards: "versionId (symVector (scanVersionScript globExt cfgTwoWild abcTable) ! 0) = 3"
  by (simp add: sample_defs scan_defs Let_def)

text \<open>Two exact rules for one symbol: the first gives the version, the second warns.\<close>

lemma example_reassign_warning:
  "versionId (symVector (scanVersionScript globExt cfgTwoExact fooTable) ! 0) = 2 \<and>
   diags (scanVersionScript globExt cfgTwoExact fooTable) =
     [Warn (reassignMessage cfgTwoExact (exactPat ''foo'') 2 3)]"
  by (simp add: sample_defs cfgTwoExact_def scan_defs Let_def)

section \<open>Properties of the call graph\<close>

subsection \<open>The constructor\<close>

lemma graph_inv_empty: "graph_inv (Map.empty, \<lparr>clusters = [], sections = []\<rparr>)"
  by (simp add: graph_inv_def)

lemma getOrCreateNode_hit:
  "m s = Some i \<Longrightarrow> getOrCreateNode I s (m, g) = (i, m, g)"
  by (simp add: getOrCreateNode_def)

lemma getOrCreateNode_miss:
  "m s = None \<Longrightarrow> getOrCreateNode I s (m, g) =
     (length (clusters g), m(s \<mapsto> length (clusters g)),
      g\<lparr>sections := sections g @ [s], clusters := clusters g @ [mkCluster (length (clusters g)) (getSize I s)]\<rparr>)"
  by (simp add: getOrCreateNode_def Let_def)

lemma getOrCreateNode_props:
  assumes "graph_inv (m, g)" and "getOrCreateNode I s (m, g) = (i, m', g')"
  shows "graph_inv (m', g') \<and> m' s = Some i \<and> i = nodeOf (m, g) s \<and> i < length (clusters g') \<and>
         (\<forall>t. weightOf (m', g') t = weightOf (m, g) t \<and> predOf (m', g') t = predOf (m, g) t) \<and>
         (\<forall>t j. m t = Some j \<longrightarrow> m' t = Some j)"
proof (cases "m s")
  case (Some j)
  then have e: "i = j" "m' = m" "g' = g" using assms(2) by (simp_all add: getOrCreateNode_hit)
  have "j < length (clusters g)" using assms(1) Some unfolding graph_inv_def by simp
  then show ?thesis using assms(1) Some unfolding e by (simp add: nodeOf_def)
next
  case None
  let ?n = "length (clusters g)"
  have e: "i = ?n" "m' = m(s \<mapsto> ?n)"
     "g' = g\<lparr>sections := sections g @ [s], clusters := clusters g @ [mkCluster ?n (getSize I s)]\<rparr>"
    using assms(2) None by (auto simp: getOrCreateNode_miss)
  have len: "length (sections g) = ?n" using assms(1) unfolding graph_inv_def by simp
  have A: "\<And>t j. m t = Some j \<longleftrightarrow> (j < ?n \<and> sections g ! j = t)"
    using assms(1) len unfolding graph_inv_def by simp
  have ns: "\<And>j. j < ?n \<Longrightarrow> sections g ! j \<noteq> s" using A None by (metis option.distinct(1))
  have B: "(m(s \<mapsto> ?n)) t = Some j \<longleftrightarrow> (j < Suc ?n \<and> (sections g @ [s]) ! j = t)" for t j
  proof (cases "j < ?n")
    case True
    then have "(sections g @ [s]) ! j = sections g ! j" using len by (simp add: nth_append)
    then show ?thesis using True A[of t j] ns[OF True] by auto
  next
    case False
    show ?thesis
    proof (cases "j = ?n")
      case True
      then have "(sections g @ [s]) ! j = s" using len by (simp add: nth_append)
      then show ?thesis using True A[of t j] by auto
    next
      case F2: False
      then show ?thesis using False A[of t j] by auto
    qed
  qed
  have inv: "graph_inv (m', g')"
    unfolding graph_inv_def e using len B by simp
  have w: "weightOf (m', g') t = weightOf (m, g) t \<and> predOf (m', g') t = predOf (m, g) t" for t
  proof (cases "t = s")
    case True
    then show ?thesis using None unfolding e by (simp add: weightOf_def predOf_def mkCluster_def)
  next
    case False
    show ?thesis
    proof (cases "m t")
      case None
      then show ?thesis using False unfolding e by (simp add: weightOf_def predOf_def)
    next
      case (Some j)
      then have "j < ?n" using A by blast
      then show ?thesis using False Some unfolding e by (simp add: weightOf_def predOf_def nth_append)
    qed
  qed
  have k: "m' t = Some j" if "m t = Some j" for t j
    using that None unfolding e by auto
  have "m' s = Some i \<and> i = nodeOf (m, g) s \<and> i < length (clusters g')"
    using None unfolding e by (simp add: nodeOf_def)
  then show ?thesis using inv w k by blast
qed

lemma graph_inv_clusters_update:
  "graph_inv (m, g) \<Longrightarrow> length cs = length (clusters g) \<Longrightarrow> graph_inv (m, g\<lparr>clusters := cs\<rparr>)"
  by (simp add: graph_inv_def)

lemma graph_inv_inj: "graph_inv (m, g) \<Longrightarrow> m s = Some i \<Longrightarrow> m t = Some i \<Longrightarrow> s = t"
  unfolding graph_inv_def by (metis fst_conv snd_conv)

lemma addEdge_dropped: "\<not> kept I c \<Longrightarrow> addEdge I c ms = ms"
  by (simp add: addEdge_def kept_def Let_def)

lemma addEdge_kept:
  assumes inv: "graph_inv ms" and k: "kept I c"
  defines "fromSB \<equiv> repl I (fst (fst c))" and "toSB \<equiv> repl I (snd (fst c))" and "w \<equiv> snd c"
  shows "graph_inv (addEdge I c ms) \<and>
         fst (addEdge I c ms) fromSB = Some (nodeOf ms fromSB) \<and>
         fst (addEdge I c ms) toSB \<noteq> None \<and>
         weightOf (addEdge I c ms) toSB = weightOf ms toSB + w \<and>
         predOf (addEdge I c ms) toSB =
           (if fromSB \<noteq> toSB \<and> (efrom (predOf ms toSB) = - 1 \<or> eweight (predOf ms toSB) < w)
            then \<lparr>efrom = int (nodeOf ms fromSB), eweight = w\<rparr> else predOf ms toSB) \<and>
         (\<forall>s. s \<noteq> toSB \<longrightarrow> weightOf (addEdge I c ms) s = weightOf ms s \<and>
                               predOf (addEdge I c ms) s = predOf ms s)"
proof -
  obtain m g where ms: "ms = (m, g)" by (cases ms)
  obtain frm m1 g1 where n1: "getOrCreateNode I fromSB (m, g) = (frm, m1, g1)" by (metis prod_cases3)
  obtain to m2 g2 where n2: "getOrCreateNode I toSB (m1, g1) = (to, m2, g2)" by (metis prod_cases3)
  note p1 = getOrCreateNode_props[OF inv[unfolded ms] n1]
  then have inv1: "graph_inv (m1, g1)" by blast
  note p2 = getOrCreateNode_props[OF inv1 n2]
  then have inv2: "graph_inv (m2, g2)" by blast
  have frm: "m2 fromSB = Some frm" "frm = nodeOf ms fromSB" using p1 p2 ms by blast+
  have to: "m2 toSB = Some to" "to < length (clusters g2)" using p2 by blast+
  have eq_iff: "frm = to \<longleftrightarrow> fromSB = toSB"
    using graph_inv_inj[OF inv2 frm(1), of toSB] to(1) frm(1) by auto
  have old: "weightOf (m2, g2) t = weightOf ms t \<and> predOf (m2, g2) t = predOf ms t" for t
    using p1 p2 ms by simp
  let ?cs = "clusters g2"
  let ?cs1 = "?cs[to := (?cs ! to)\<lparr>weight := weight (?cs ! to) + w\<rparr>]"
  let ?upd = "fromSB \<noteq> toSB \<and> (efrom (bestPred (?cs ! to)) = - 1 \<or> eweight (bestPred (?cs ! to)) < w)"
  let ?cs2 = "if ?upd then ?cs1[to := (?cs1 ! to)\<lparr>bestPred := \<lparr>efrom = int frm, eweight = w\<rparr>\<rparr>] else ?cs1"
  have res: "addEdge I c ms = (m2, g2\<lparr>clusters := ?cs2\<rparr>)"
    using k n1 n2 eq_iff to(2) unfolding addEdge_def ms kept_def fromSB_def[symmetric] toSB_def[symmetric] w_def[symmetric] Let_def
    by (simp add: fromSB_def[symmetric] toSB_def[symmetric])
  have len: "length ?cs2 = length ?cs" by simp
  have at_to: "weight (?cs2 ! to) = weight (?cs ! to) + w"
      "bestPred (?cs2 ! to) = (if ?upd then \<lparr>efrom = int frm, eweight = w\<rparr> else bestPred (?cs ! to))"
    using to(2) by simp_all
  have other: "?cs2 ! j = ?cs ! j" if "j \<noteq> to" for j using that by simp
  have 1: "graph_inv (addEdge I c ms)" unfolding res by (rule graph_inv_clusters_update[OF inv2 len])
  have 2: "weightOf (addEdge I c ms) toSB = weightOf ms toSB + w"
    using at_to(1) to(1) old[of toSB] unfolding res by (simp add: weightOf_def)
  have 3: "predOf (addEdge I c ms) toSB =
           (if fromSB \<noteq> toSB \<and> (efrom (predOf ms toSB) = - 1 \<or> eweight (predOf ms toSB) < w)
            then \<lparr>efrom = int (nodeOf ms fromSB), eweight = w\<rparr> else predOf ms toSB)"
  proof -
    have "predOf (m2, g2) toSB = bestPred (?cs ! to)" using to(1) by (simp add: predOf_def)
    then have b: "bestPred (?cs ! to) = predOf ms toSB" using old by simp
    have "predOf (addEdge I c ms) toSB = bestPred (?cs2 ! to)" unfolding res using to(1) by (simp add: predOf_def)
    then show ?thesis using at_to(2) b frm(2) by simp
  qed
  have 4: "weightOf (addEdge I c ms) s = weightOf ms s \<and> predOf (addEdge I c ms) s = predOf ms s"
    if "s \<noteq> toSB" for s
  proof (cases "m2 s")
    case None
    then show ?thesis using old[of s] unfolding res by (simp add: weightOf_def predOf_def)
  next
    case (Some j)
    then have "j \<noteq> to" using graph_inv_inj[OF inv2 Some, of toSB] to(1) that by auto
    from other[OF this] show ?thesis using old[of s] Some unfolding res by (simp add: weightOf_def predOf_def)
  qed
  show ?thesis using 1 2 3 4 frm to(1) unfolding res by simp
qed

lemma graph_inv_addEdge: "graph_inv ms \<Longrightarrow> graph_inv (addEdge I c ms)"
  using addEdge_kept[of ms I c] addEdge_dropped[of I c ms] by (cases "kept I c") auto

lemma fold_addEdge_weight:
  "graph_inv ms \<Longrightarrow>
   graph_inv (fold (addEdge I) profile ms) \<and>
   weightOf (fold (addEdge I) profile ms) s =
     weightOf ms s + sum_list (map snd (filter (\<lambda>c. kept I c \<and> repl I (snd (fst c)) = s) profile))"
proof (induction profile arbitrary: ms)
  case Nil then show ?case by simp
next
  case (Cons c cs)
  have i: "graph_inv (addEdge I c ms)" by (rule graph_inv_addEdge[OF Cons.prems])
  have w: "weightOf (addEdge I c ms) s = weightOf ms s + (if kept I c \<and> repl I (snd (fst c)) = s then snd c else 0)"
  proof (cases "kept I c")
    case True
    from addEdge_kept[OF Cons.prems True] show ?thesis using True by (cases "repl I (snd (fst c)) = s") auto
  next
    case False
    then show ?thesis by (simp add: addEdge_dropped)
  qed
  show ?case using Cons.IH[OF i] w by (simp add: add.assoc)
qed

lemma ctor_initialWeight: "\<forall>c \<in> set (clusters (CallGraphSort_ctor I profile)). initialWeight c = weight c"
  by (auto simp: CallGraphSort_ctor_def Let_def)

text \<open>
  C6. One entry of the profile, in a state where \<open>secToCluster\<close> and \<open>sections\<close> agree:
  the entry is dropped, and the state left as it is, exactly when the output sections of the
  two sections differ. Otherwise both sections have a cluster afterwards, the weight of the
  destination has grown by the weight of the entry, and the best predecessor of the
  destination is replaced by (source, weight) only when the source is another section and
  either none was recorded or the recorded weight is strictly smaller; nothing changes for
  any other section. After the whole profile the weight of a section is the sum (in
  \<open>uint64_t\<close>) of the weights of the kept entries into it, and the constructor leaves every
  cluster with \<open>initialWeight\<close> equal to that weight.
\<close>

theorem graph_construction:
  assumes "graph_inv ms"
  shows "graph_inv (addEdge I c ms) \<and>
         (\<not> kept I c \<longrightarrow> addEdge I c ms = ms) \<and>
         (kept I c \<longrightarrow>
            fst (addEdge I c ms) (repl I (fst (fst c))) = Some (nodeOf ms (repl I (fst (fst c)))) \<and>
            fst (addEdge I c ms) (repl I (snd (fst c))) \<noteq> None \<and>
            weightOf (addEdge I c ms) (repl I (snd (fst c))) = weightOf ms (repl I (snd (fst c))) + snd c \<and>
            predOf (addEdge I c ms) (repl I (snd (fst c))) =
              (if repl I (fst (fst c)) \<noteq> repl I (snd (fst c)) \<and>
                  (efrom (predOf ms (repl I (snd (fst c)))) = - 1 \<or>
                   eweight (predOf ms (repl I (snd (fst c)))) < snd c)
               then \<lparr>efrom = int (nodeOf ms (repl I (fst (fst c)))), eweight = snd c\<rparr>
               else predOf ms (repl I (snd (fst c)))) \<and>
            (\<forall>s. s \<noteq> repl I (snd (fst c)) \<longrightarrow>
                 weightOf (addEdge I c ms) s = weightOf ms s \<and> predOf (addEdge I c ms) s = predOf ms s)) \<and>
         graph_inv (buildGraph I profile) \<and>
         weightOf (buildGraph I profile) s =
           sum_list (map snd (filter (\<lambda>c. kept I c \<and> repl I (snd (fst c)) = s) profile)) \<and>
         (\<forall>c \<in> set (clusters (CallGraphSort_ctor I profile)). initialWeight c = weight c) \<and>
         map weight (clusters (CallGraphSort_ctor I profile)) = map weight (clusters (snd (buildGraph I profile)))"
proof -
  note a = addEdge_kept[OF assms, of I c] addEdge_dropped[of I c ms]
  have b: "graph_inv (buildGraph I profile) \<and> weightOf (buildGraph I profile) s =
           sum_list (map snd (filter (\<lambda>c. kept I c \<and> repl I (snd (fst c)) = s) profile))"
    using fold_addEdge_weight[OF graph_inv_empty, of I profile s]
    by (simp add: buildGraph_def weightOf_def)
  have d: "map weight (clusters (CallGraphSort_ctor I profile)) = map weight (clusters (snd (buildGraph I profile)))"
    by (simp add: CallGraphSort_ctor_def Let_def comp_def)
  show ?thesis using a b d ctor_initialWeight[of I profile] graph_inv_addEdge[OF assms] by blast
qed

theorem graph_construction_witness:
  "kept chainInfo ((0, 1), 300) \<and>
   weightOf (addEdge chainInfo ((0, 1), 300) (Map.empty, \<lparr>clusters = [], sections = []\<rparr>)) 1 = 300 \<and>
   predOf (addEdge chainInfo ((0, 1), 300) (Map.empty, \<lparr>clusters = [], sections = []\<rparr>)) 1 =
     \<lparr>efrom = 0, eweight = 300\<rparr> \<and>
   fst (addEdge chainInfo ((0, 1), 300) (Map.empty, \<lparr>clusters = [], sections = []\<rparr>)) 0 = Some 0"
proof -
  have k: "kept chainInfo ((0, 1), 300)" by (simp add: kept_def chainInfo_def)
  note t = graph_construction[OF graph_inv_empty, of chainInfo "((0, 1), 300)" "[]" 0]
  show ?thesis using t k
    by (simp add: chainInfo_def weightOf_def predOf_def nodeOf_def)
qed

subsection \<open>getLeader: path halving on a forest\<close>









subsection \<open>mergeClusters and the merge step\<close>









text \<open>The definitions to unfold when a concrete profile is evaluated.\<close>

lemmas cg_defs = CallGraphSort_ctor_def buildGraph_def addEdge_def getOrCreateNode_def mkCluster_def
  chainInfo_def chainProfile_def fanProfile_def emptySecInfo_def emptySecProfile_def Let_def

lemmas run_defs = run_def stable_sort_def byDensity_def getDensity_def ratFp_def mergeStep_def
  isNewDensityBad_def mergeClusters_def MAX_CLUSTER_SIZE_def MAX_DENSITY_DEGRADATION_def
  getLeader.simps walk.simps upt_rec[of 0] upt_rec[of 1] upt_rec[of 2] upt_rec[of 3] upt_rec[of 4]




lemma run_fan:
  "computeCallGraphProfileOrder ratFp chainInfo fanProfile = Some [1 \<mapsto> 1, 0 \<mapsto> 2, 2 \<mapsto> 3]"
  unfolding computeCallGraphProfileOrder_def by (simp add: cg_defs run_defs Let_def)


subsection \<open>Cycles, sorting and numbering\<close>

lemma linked_nonempty: "linked cs r xs \<Longrightarrow> xs \<noteq> []"
  by (cases xs) auto







text \<open>What \<open>number\<close> assigns.\<close>

lemma number_Nil: "number secs [] oc = oc"
  by (simp add: number_def)

lemma number_Cons: "number secs (x # xs) oc = number secs xs ((fst oc)(secs ! x \<mapsto> snd oc), snd oc + 1)"
  by (simp add: number_def)


lemma number_snd: "snd (number secs xs oc) = snd oc + int (length xs)"
  by (induction xs arbitrary: oc) (simp_all add: number_Nil number_Cons)







subsection \<open>The invariant of the merge loop\<close>








subsection \<open>The final order\<close>










end
